theory Spec2Isabelle
  imports Complex_Main "HOL-Library.Sublist"
begin

section \<open>The AIO+ weather repeater (code.py)\<close>

text \<open>
  The program is a single script: a few helpers, a start-up sequence and an endless
  \<open>while True\<close> loop. It talks to the outside through library calls (\<open>wifi\<close>,
  \<open>aio\<close>, \<open>time\<close>, \<open>supervisor\<close>, the NeoPixel and the LED). The model makes
  every such call an event of a trace, in program order, and takes the outcome of each
  call that can fail or that reads the outside from a \<open>world\<close>: the reply to the
  \<open>n\<close>-th such call.
\<close>

subsection \<open>Data\<close>

text \<open>
  A JSON number decoded by \<open>json.loads\<close> is a Python \<open>int\<close> or a \<open>float\<close>;
  a float is carried as the real it denotes.
\<close>

datatype pynum = PyInt int | PyFloat real

text \<open>
  A value under a key the loop does not read, up to Python's \<open>==\<close>: \<open>true\<close> and
  \<open>false\<close> compare as the numbers 1 and 0, an integer and a float of the same value
  are the same number, and dictionaries compare key by key, whatever the order.
\<close>

datatype jval =
    JNull
  | JNum real
  | JStr string
  | JList "jval list"
  | JDict "string \<Rightarrow> jval option"

text \<open>
  The decoded payload of a message on the feed \<open>weather\<close> (the dictionary that
  \<open>json.loads\<close> returns): the keys the loop reads, with the types of the inbound
  schema, and everything else the dictionary holds, \<open>other\<close> under its other keys and
  \<open>metadata_other\<close> under the other keys of \<open>metadata\<close>. \<open>windDirection\<close> may be
  JSON \<open>null\<close>, Python's \<open>None\<close>.
\<close>

record observation =
  conditionCode :: string
  temperature :: pynum
  humidity :: pynum
  windSpeed :: pynum
  windGust :: pynum
  windDirection :: "pynum option"
  readTime :: string
  daylight :: bool
  metadata_other :: "string \<Rightarrow> jval option"
  other :: "string \<Rightarrow> jval option"

text \<open>The values handed to \<open>publish_to_aio\<close>: \<open>union(integer, float, string)\<close>.\<close>

datatype pyvalue = IntV int | FloatV real | StrV string

datatype exn = Exception string | KeyError string | ValueError string | IndexError int | OverflowError

text \<open>
  A point in time as \<open>adafruit_datetime\<close> holds it, counted in microseconds from the
  first instant the library can hold, the start of the year 1.
\<close>

type_synonym datetime = int

text \<open>The lines the program prints, one constructor per \<open>print\<close> statement.\<close>

datatype logline =
    PublishSuccess pyvalue string
  | PublishFailed "pyvalue option" string
  | PublishError string
  | AttemptingReconnect
  | PublishReconnectFailed string
  | SoftResetNotice
  | ConnectingTo "string option"
  | WifiConnected
  | WifiFailed string
  | LoopFailed string
  | LoopAttemptingReconnect
  | LoopReconnectFailed string
  | NewBanner
  | Timestamp string
  | SampleTime datetime
  | LocalTime datetime
  | NoDescription string
  | Icon string
  | LongDescription string
  | WaitingForObservations

datatype event =
    SetPixel nat
  | SetLed bool
  | Sleep real
  | Print logline
  | WifiConnect
  | AioLoop int
  | AioConnect
  | AioReconnect
  | AioPublish string pyvalue
  | Monotonic
  | Reload

text \<open>
  The reply of the outside to one call: the messages the client hands to the
  \<open>on_message\<close> callback while the call runs (only \<open>aio.loop\<close> delivers any),
  the exception the call raises if it does (its \<open>str\<close>), and the monotonic clock
  (read by \<open>time.monotonic()\<close> only).
\<close>

record reply =
  delivered :: "(string \<times> observation) list"
  raised :: "string option"
  clock :: real

type_synonym world = "nat \<Rightarrow> reply"

text \<open>
  What the script imports and the sources at hand do not contain: the table
  \<open>kit_to_map_icon\<close> (condition code to long description and icon base), the
  converter \<open>celsius_to_fahrenheit\<close>, \<open>datetime.fromisoformat\<close> (\<open>None\<close> where
  it raises \<open>ValueError\<close>) and the environment variable holding the network name.
\<close>

record lib =
  kit_to_map_icon :: "string \<rightharpoonup> string \<times> string"
  celsius_to_fahrenheit :: "pynum \<Rightarrow> pynum"
  fromisoformat :: "string \<Rightarrow> datetime option"
  wifi_ssid :: "string option"

text \<open>
  The globals \<open>weather_data\<close> and \<open>weather_data_old\<close>, the trace of events so
  far and the number of calls already answered by the world.
\<close>

record state =
  weather_data :: "observation option"
  weather_data_old :: "observation option"
  trace :: "event list"
  calls :: nat

text \<open>
  How a piece of the script ends: it falls through to the next statement, it called
  \<open>supervisor.reload()\<close> (which does not return: the script is started again), or an
  exception that no handler catches ended the script.
\<close>

datatype result = Normal state | Reloaded state | Uncaught exn state

fun state_of :: "result \<Rightarrow> state" where
  "state_of (Normal s) = s"
| "state_of (Reloaded s) = s"
| "state_of (Uncaught e s) = s"

definition and_then :: "result \<Rightarrow> (state \<Rightarrow> result) \<Rightarrow> result" where
  "and_then r f = (case r of Normal s \<Rightarrow> f s | Reloaded s \<Rightarrow> Reloaded s | Uncaught e s \<Rightarrow> Uncaught e s)"

definition emit :: "event list \<Rightarrow> state \<Rightarrow> state" where
  "emit es s = s\<lparr>trace := trace s @ es\<rparr>"

definition ask :: "world \<Rightarrow> event \<Rightarrow> state \<Rightarrow> reply \<times> state" where
  "ask w e s = (w (calls s), s\<lparr>trace := trace s @ [e], calls := Suc (calls s)\<rparr>)"

subsection \<open>Python arithmetic\<close>

text \<open>
  A Python float is an IEEE 754 binary64 number: a real \<open>m * 2 ^ e\<close> with
  \<open>\<bar>m\<bar> < 2 ^ 53\<close> and \<open>- 1074 \<le> e\<close>. A float operation returns the exact
  result rounded to the nearest such number, a tie to the one with the even \<open>m\<close>; a
  float literal denotes the float nearest to it. The model carries floats as the reals
  they denote and rounds with \<open>fl\<close>. Infinities and NaN (magnitudes from \<open>2 ^ 1024\<close>
  on) and the sign of zero are not modelled.
\<close>

text \<open>\<open>int(x)\<close> truncates towards zero.\<close>

definition py_int :: "real \<Rightarrow> int" where
  "py_int x = (if 0 \<le> x then \<lfloor>x\<rfloor> else \<lceil>x\<rceil>)"

text \<open>\<open>int(round(x, 0))\<close>: \<open>round\<close> rounds a half to the even neighbour.\<close>

definition py_round :: "real \<Rightarrow> int" where
  "py_round x =
     (let f = \<lfloor>x\<rfloor>; d = x - of_int f
      in if d < 1 / 2 then f else if 1 / 2 < d then f + 1 else if even f then f else f + 1)"

text \<open>
  The binary exponent of \<open>x\<close>: the \<open>e\<close> with \<open>2 ^ e \<le> \<bar>x\<bar> < 2 ^ (e + 1)\<close>, found
  by halving or doubling, and never below \<open>- 1022\<close> (the subnormal numbers share it).
\<close>

fun expo_up :: "nat \<Rightarrow> real \<Rightarrow> int" where
  "expo_up 0 x = 0"
| "expo_up (Suc n) x = (if x < 2 then 0 else expo_up n (x / 2) + 1)"

fun expo_down :: "nat \<Rightarrow> real \<Rightarrow> int" where
  "expo_down 0 x = 0"
| "expo_down (Suc n) x = (if 1 \<le> x then 0 else expo_down n (2 * x) - 1)"

definition expo :: "real \<Rightarrow> int" where
  "expo x = (if 1 \<le> \<bar>x\<bar> then expo_up 1023 \<bar>x\<bar> else expo_down 1022 \<bar>x\<bar>)"

text \<open>The spacing of the floats around \<open>x\<close>, and rounding to the nearest float.\<close>

definition ulp :: "real \<Rightarrow> real" where
  "ulp x = 2 powi (expo x - 52)"

definition fl :: "real \<Rightarrow> real" where
  "fl x = of_int (py_round (x / ulp x)) * ulp x"

definition fadd :: "real \<Rightarrow> real \<Rightarrow> real" where
  "fadd a b = fl (a + b)"

definition fmul :: "real \<Rightarrow> real \<Rightarrow> real" where
  "fmul a b = fl (a * b)"

definition fdiv :: "real \<Rightarrow> real \<Rightarrow> real" where
  "fdiv a b = fl (a / b)"

text \<open>
  Numbers in arithmetic and comparison: \<open>float(x)\<close>, to which an \<open>int\<close> is converted
  when the other operand is a float; \<open>x * 100\<close>, which stays an \<open>int\<close> for an \<open>int\<close>;
  \<open>x * 0.6214\<close>; \<open>x == y\<close>, which compares the exact values; and the number as a
  value to publish.
\<close>

fun to_float :: "pynum \<Rightarrow> real" where
  "to_float (PyInt i) = fl (of_int i)"
| "to_float (PyFloat x) = x"

fun times_int :: "pynum \<Rightarrow> int \<Rightarrow> pynum" where
  "times_int (PyInt i) k = PyInt (i * k)"
| "times_int (PyFloat x) k = PyFloat (fmul x (fl (of_int k)))"

definition times_float :: "pynum \<Rightarrow> real \<Rightarrow> real" where
  "times_float x y = fmul (to_float x) y"

fun num_val :: "pynum \<Rightarrow> real" where
  "num_val (PyInt i) = of_int i"
| "num_val (PyFloat x) = x"

definition num_eq :: "pynum \<Rightarrow> pynum \<Rightarrow> bool" where
  "num_eq a b = (num_val a = num_val b)"

fun published :: "pynum \<Rightarrow> pyvalue" where
  "published (PyInt i) = IntV i"
| "published (PyFloat x) = FloatV x"

text \<open>
  \<open>x % m\<close> on floats, \<open>m\<close> not zero: C's \<open>fmod\<close>, which is exact and has the sign of
  \<open>x\<close>, then \<open>m\<close> is added (a float addition) when the signs of the remainder and of
  \<open>m\<close> differ.
\<close>

definition py_mod :: "real \<Rightarrow> real \<Rightarrow> real" where
  "py_mod x m =
     (let r = x - m * of_int (py_int (x / m))
      in if r \<noteq> 0 then (if (m < 0) \<noteq> (r < 0) then fadd r m else r) else 0)"

text \<open>\<open>xs[i]\<close>: a negative index counts from the end, an index out of range raises.\<close>

definition py_index :: "'a list \<Rightarrow> int \<Rightarrow> exn + 'a" where
  "py_index xs i =
     (if 0 \<le> i \<and> i < int (length xs) then Inr (xs ! nat i)
      else if i < 0 \<and> - int (length xs) \<le> i then Inr (xs ! nat (int (length xs) + i))
      else Inl (IndexError i))"

text \<open>\<open>str(b)\<close> of a bool.\<close>

definition str_bool :: "bool \<Rightarrow> string" where
  "str_bool b = (if b then ''True'' else ''False'')"

subsection \<open>Helpers\<close>

text \<open>
  \<open>==\<close> on two decoded payloads: the dictionaries have the same keys with equal
  values. \<open>!=\<close> on \<open>weather_data\<close> and \<open>weather_data_old\<close>, either of which may be
  \<open>None\<close>: a dictionary differs from \<open>None\<close>.
\<close>

definition dict_eq :: "observation \<Rightarrow> observation \<Rightarrow> bool" where
  "dict_eq a b =
     (conditionCode a = conditionCode b \<and> num_eq (temperature a) (temperature b) \<and>
      num_eq (humidity a) (humidity b) \<and> num_eq (windSpeed a) (windSpeed b) \<and>
      num_eq (windGust a) (windGust b) \<and>
      (case (windDirection a, windDirection b) of
         (None, None) \<Rightarrow> True
       | (Some x, Some y) \<Rightarrow> num_eq x y
       | (None, Some y) \<Rightarrow> False
       | (Some x, None) \<Rightarrow> False) \<and>
      readTime a = readTime b \<and> daylight a = daylight b \<and>
      metadata_other a = metadata_other b \<and> other a = other b)"

fun differs :: "observation option \<Rightarrow> observation option \<Rightarrow> bool" where
  "differs None None = False"
| "differs (Some a) (Some b) = (\<not> dict_eq a b)"
| "differs None (Some b) = True"
| "differs (Some a) None = True"

text \<open>The callback \<open>message\<close>: only the feed \<open>weather\<close> sets \<open>weather_data\<close>.\<close>

definition message :: "string \<Rightarrow> observation \<Rightarrow> state \<Rightarrow> state" where
  "message feed_id payload s =
     (if feed_id = ''weather'' then s\<lparr>weather_data := Some payload\<rparr> else s)"

fun deliver :: "(string \<times> observation) list \<Rightarrow> state \<Rightarrow> state" where
  "deliver [] s = s"
| "deliver ((feed_id, payload) # ms) s = deliver ms (message feed_id payload s)"

definition compass :: "string list" where
  "compass = [''N'', ''NE'', ''E'', ''SE'', ''S'', ''SW'', ''W'', ''NW'']"

text \<open>
  \<open>wind_direction\<close>, on the float that \<open>heading + 22.5\<close> makes of the heading.
\<close>

definition wind_direction :: "real option \<Rightarrow> exn + string" where
  "wind_direction heading =
     (case heading of
        None \<Rightarrow> Inr ''--''
      | Some h \<Rightarrow> py_index compass (py_int (fdiv (py_mod (fadd h 22.5) 360) 45)))"

text \<open>
  \<open>publish_to_aio\<close>: the throttled publish. A value \<open>None\<close> is only logged. A publish
  that raises is followed by one \<open>aio.reconnect()\<close>; when that raises too, the script
  sleeps 60 seconds and reloads.
\<close>

definition publish_to_aio :: "world \<Rightarrow> pyvalue option \<Rightarrow> string \<Rightarrow> state \<Rightarrow> result" where
  "publish_to_aio w val feed s =
     (case val of
        Some v \<Rightarrow>
          (let s1 = emit [Sleep 2.5] s;
               (r, s2) = ask w (AioPublish feed v) s1
           in case raised r of
                None \<Rightarrow> Normal (emit [SetPixel 0x00FF00, Print (PublishSuccess v feed)] s2)
              | Some aio_publish_error \<Rightarrow>
                  (let s3 = emit [SetPixel 0xFF0000, Print (PublishFailed (Some v) feed),
                                  Print (PublishError aio_publish_error),
                                  Print AttemptingReconnect] s2;
                       (r', s4) = ask w AioReconnect s3
                   in case raised r' of
                        None \<Rightarrow> Normal (emit [SetPixel 0x00FF00] s4)
                      | Some pub_reconnect_error \<Rightarrow>
                          Reloaded (emit [SetPixel 0xFF0000,
                                          Print (PublishReconnectFailed pub_reconnect_error),
                                          Print SoftResetNotice, Sleep 60, Reload] s4)))
      | None \<Rightarrow> Normal (emit [Print (PublishFailed None feed)] s))"

text \<open>\<open>busy\<close>: the sleep that blinks the LED once per second.\<close>

fun blink :: "nat \<Rightarrow> event list" where
  "blink 0 = []"
| "blink (Suc n) = [SetLed True, Sleep (fl 0.05), SetLed False, Sleep (fl 0.95)] @ blink n"

definition busy :: "real \<Rightarrow> state \<Rightarrow> state" where
  "busy delay s = emit (SetPixel 0x000000 # blink (nat (py_round delay))) s"

subsection \<open>Start-up\<close>

text \<open>Lines 102 to 115: the connection to the Wi-Fi access point.\<close>

definition connect_wifi :: "lib \<Rightarrow> world \<Rightarrow> state \<Rightarrow> result" where
  "connect_wifi l w s =
     (let s1 = emit [Print (ConnectingTo (wifi_ssid l))] s;
          (r, s2) = ask w WifiConnect s1
      in case raised r of
           None \<Rightarrow> Normal (emit [SetPixel 0x00FF00, Print WifiConnected] s2)
         | Some wifi_access_error \<Rightarrow>
             Reloaded (emit [SetPixel 0xFF0000, Print (WifiFailed wifi_access_error),
                             Print SoftResetNotice, Sleep 60, Reload] s2))"

subsection \<open>The loop\<close>

text \<open>
  Lines 151 to 169: fetch the weather conditions, reconnect once on failure. The messages
  that \<open>aio.loop\<close> hands to the callback before it returns or raises have set
  \<open>weather_data\<close> either way. The reconnect is a call of \<open>aio.connect()\<close>.
\<close>

definition fetch :: "world \<Rightarrow> state \<Rightarrow> result" where
  "fetch w s =
     (let s1 = emit [SetPixel 0xFFFF00, Sleep 2.5] s;
          (r, s2) = ask w (AioLoop 10) s1;
          s3 = deliver (delivered r) s2
      in case raised r of
           None \<Rightarrow> Normal (emit [SetPixel 0x00FF00] s3)
         | Some loop_error \<Rightarrow>
             (let s4 = emit [SetPixel 0xFF0000, Print (LoopFailed loop_error),
                             Print LoopAttemptingReconnect, Sleep 10] s3;
                  (r', s5) = ask w AioConnect s4
              in case raised r' of
                   None \<Rightarrow> Normal (emit [SetPixel 0x00FF00] s5)
                 | Some loop_reconnect_error \<Rightarrow>
                     Reloaded (emit [SetPixel 0xFF0000,
                                     Print (LoopReconnectFailed loop_reconnect_error),
                                     Print SoftResetNotice, Sleep 60, Reload] s5)))"

text \<open>
  Lines 192 to 201: icon and long description of a condition code. The \<open>try\<close> body
  reads the table and raises \<open>KeyError\<close> on an unknown code; the handler logs and
  substitutes.
\<close>

definition table_get :: "(string \<rightharpoonup> string \<times> string) \<Rightarrow> string \<Rightarrow> exn + string \<times> string" where
  "table_get tbl k = (case tbl k of None \<Rightarrow> Inl (KeyError k) | Some v \<Rightarrow> Inr v)"

definition icon_try :: "(string \<rightharpoonup> string \<times> string) \<Rightarrow> string \<Rightarrow> bool \<Rightarrow> exn + string \<times> string" where
  "icon_try tbl weatherkit_desc weatherkit_daylight =
     (case table_get tbl weatherkit_desc of
        Inl e \<Rightarrow> Inl e
      | Inr (long, base) \<Rightarrow>
          Inr (if weatherkit_daylight then base @ ''d'' else base @ ''n'', long))"

definition icon_lookup ::
  "(string \<rightharpoonup> string \<times> string) \<Rightarrow> string \<Rightarrow> bool \<Rightarrow> state \<Rightarrow> exn + (string \<times> string) \<times> state" where
  "icon_lookup tbl weatherkit_desc weatherkit_daylight s =
     (case icon_try tbl weatherkit_desc weatherkit_daylight of
        Inr (icon, long_desc) \<Rightarrow> Inr ((icon, long_desc), s)
      | Inl (KeyError desc_error) \<Rightarrow>
          Inr ((''99d'', ''unknown description: '' @ weatherkit_desc),
               emit [Print (NoDescription desc_error)] s)
      | Inl e \<Rightarrow> Inl e)"

text \<open>
  Lines 205 to 212: consecutive calls of \<open>publish_to_aio\<close>, each run when the one
  before it returned.
\<close>

fun publish_seq :: "world \<Rightarrow> (pyvalue option \<times> string) list \<Rightarrow> state \<Rightarrow> result" where
  "publish_seq w [] s = Normal s"
| "publish_seq w ((val, feed) # rest) s = and_then (publish_to_aio w val feed s) (publish_seq w rest)"

text \<open>
  \<open>sample_time - timedelta(hours=7)\<close>: the library raises \<open>OverflowError\<close> when the
  result would lie before the first instant it can hold.
\<close>

definition minus_hours :: "datetime \<Rightarrow> int \<Rightarrow> exn + datetime" where
  "minus_hours t h =
     (if t - h * 3600 * 1000000 < 0 then Inl OverflowError else Inr (t - h * 3600 * 1000000))"

text \<open>Lines 173 to 214: a new observation is decoded, logged, published and remembered.\<close>

definition new_observation :: "lib \<Rightarrow> world \<Rightarrow> observation \<Rightarrow> state \<Rightarrow> result" where
  "new_observation l w wd s =
     (let weatherkit_desc = conditionCode wd;
          weatherkit_temp = celsius_to_fahrenheit l (temperature wd);
          weatherkit_humid = times_int (humidity wd) 100;
          weatherkit_wind_speed = times_float (windSpeed wd) (fl 0.6214)
      in case wind_direction (map_option to_float (windDirection wd)) of
           Inl e \<Rightarrow> Uncaught e s
         | Inr weatherkit_wind_dir \<Rightarrow>
             (let weatherkit_wind_gusts = times_float (windGust wd) (fl 0.6214);
                  weatherkit_timestamp = readTime wd;
                  weatherkit_daylight = daylight wd;
                  s1 = emit [Print NewBanner, Print (Timestamp weatherkit_timestamp)] s
              in case fromisoformat l (butlast weatherkit_timestamp) of
                   None \<Rightarrow> Uncaught (ValueError (butlast weatherkit_timestamp)) s1
                 | Some sample_time \<Rightarrow>
                     (let s2 = emit [Print (SampleTime sample_time)] s1
                      in case minus_hours sample_time 7 of
                           Inl e \<Rightarrow> Uncaught e s2
                         | Inr local_time \<Rightarrow>
                     (let s3 = emit [Print (LocalTime local_time)] s2
                      in case icon_lookup (kit_to_map_icon l) weatherkit_desc weatherkit_daylight s3 of
                           Inl e \<Rightarrow> Uncaught e s3
                         | Inr ((icon, long_desc), s4) \<Rightarrow>
                             (let s5 = emit [Print (Icon icon), Print (LongDescription long_desc)] s4;
                                  (t, s6) = ask w Monotonic s5
                              in and_then
                                   (publish_seq w
                                      [(Some (IntV (py_round (fdiv (clock t) 60))), ''system-watchdog''),
                                       (Some (StrV weatherkit_desc), ''weather-description''),
                                       (Some (published weatherkit_humid), ''weather-humidity''),
                                       (Some (published weatherkit_temp), ''weather-temperature''),
                                       (Some (StrV weatherkit_wind_dir), ''weather-winddirection''),
                                       (Some (FloatV weatherkit_wind_gusts), ''weather-windgusts''),
                                       (Some (FloatV weatherkit_wind_speed), ''weather-windspeed''),
                                       (Some (StrV (str_bool weatherkit_daylight)), ''weather-daylight'')]
                                      s6)
                                   (\<lambda>s7. Normal (s7\<lparr>weather_data_old := weather_data s7\<rparr>)))))))"

text \<open>
  Lines 171 to 218: what the loop does with \<open>weather_data\<close> after the fetch. The test
  \<open>if weather_data:\<close> is false for \<open>None\<close> and true for a decoded observation, a
  dictionary that is not empty; \<open>weather_data != weather_data_old\<close> compares the two
  dictionaries.
\<close>

definition repeat_weather :: "lib \<Rightarrow> world \<Rightarrow> state \<Rightarrow> result" where
  "repeat_weather l w s =
     (case weather_data s of
        Some wd \<Rightarrow>
          and_then
            (if differs (weather_data s) (weather_data_old s) then new_observation l w wd s
             else Normal s)
            (\<lambda>s'. Normal (busy 120 s'))
      | None \<Rightarrow> Normal (busy 10 (emit [Print WaitingForObservations] s)))"

text \<open>One pass through the body of \<open>while True\<close>, and \<open>n\<close> passes.\<close>

definition cycle :: "lib \<Rightarrow> world \<Rightarrow> state \<Rightarrow> result" where
  "cycle l w s = and_then (fetch w s) (repeat_weather l w)"

fun run :: "lib \<Rightarrow> world \<Rightarrow> nat \<Rightarrow> state \<Rightarrow> result" where
  "run l w 0 s = Normal s"
| "run l w (Suc n) s = and_then (cycle l w s) (run l w n)"

text \<open>The events a piece of the script added to the trace, and the publishes among events.\<close>

definition new_events :: "state \<Rightarrow> result \<Rightarrow> event list" where
  "new_events s r = drop (length (trace s)) (trace (state_of r))"

fun publishes :: "event list \<Rightarrow> (string \<times> pyvalue) list" where
  "publishes [] = []"
| "publishes (AioPublish feed v # es) = (feed, v) # publishes es"
| "publishes (e # es) = publishes es"

text \<open>
  The values \<open>publish_to_aio\<close> sends for a list of calls: the calls with a value
  \<open>None\<close> send nothing.
\<close>

fun attempts :: "(pyvalue option \<times> string) list \<Rightarrow> (string \<times> pyvalue) list" where
  "attempts [] = []"
| "attempts ((Some v, feed) # rest) = (feed, v) # attempts rest"
| "attempts ((None, feed) # rest) = attempts rest"

text \<open>
  The arguments of the eight calls of lines 205 to 212, for an observation, the reading
  \<open>t\<close> of the monotonic clock and the compass label.
\<close>

definition publish_calls :: "lib \<Rightarrow> observation \<Rightarrow> real \<Rightarrow> string \<Rightarrow> (pyvalue option \<times> string) list" where
  "publish_calls l wd t label =
     [(Some (IntV (py_round (fdiv t 60))), ''system-watchdog''),
      (Some (StrV (conditionCode wd)), ''weather-description''),
      (Some (published (times_int (humidity wd) 100)), ''weather-humidity''),
      (Some (published (celsius_to_fahrenheit l (temperature wd))), ''weather-temperature''),
      (Some (StrV label), ''weather-winddirection''),
      (Some (FloatV (times_float (windGust wd) (fl 0.6214))), ''weather-windgusts''),
      (Some (FloatV (times_float (windSpeed wd) (fl 0.6214))), ''weather-windspeed''),
      (Some (StrV (str_bool (daylight wd))), ''weather-daylight'')]"

text \<open>
  The three events every restart ends with, and the shape of the events of a piece of
  the script: they extend the trace, and a reload happens once, at the very end after
  the notice and the sleep of 60 seconds, or not at all.
\<close>

definition restart_tail :: "event list" where
  "restart_tail = [Print SoftResetNotice, Sleep 60, Reload]"

definition ends_well :: "state \<Rightarrow> result \<Rightarrow> bool" where
  "ends_well s r =
     (prefix (trace s) (trace (state_of r)) \<and> calls s \<le> calls (state_of r) \<and>
      (case r of
         Reloaded s' \<Rightarrow> suffix restart_tail (new_events s r) \<and> count_list (new_events s r) Reload = 1
       | Normal s' \<Rightarrow> count_list (new_events s r) Reload = 0
       | Uncaught e s' \<Rightarrow> count_list (new_events s r) Reload = 0))"

subsection \<open>Example inputs\<close>

text \<open>Lines 146 and 147: no observation yet; nothing has happened.\<close>

definition init_state :: state where
  "init_state = \<lparr>weather_data = None, weather_data_old = None, trace = [], calls = 0\<rparr>"

definition example_obs :: observation where
  "example_obs =
     \<lparr>conditionCode = ''Clear'', temperature = PyInt 20, humidity = PyFloat (1 / 2),
      windSpeed = PyInt 5, windGust = PyInt 8, windDirection = Some (PyInt 90),
      readTime = ''2024-01-01T12:00:00Z'', daylight = True,
      metadata_other = Map.empty, other = Map.empty\<rparr>"

definition example_lib :: lib where
  "example_lib =
     \<lparr>kit_to_map_icon = [''Clear'' \<mapsto> (''clear sky'', ''01'')],
      celsius_to_fahrenheit = (\<lambda>c. PyFloat (fadd (fdiv (fmul (to_float c) 9) 5) 32)),
      fromisoformat = (\<lambda>s. Some 63839707200000000),
      wifi_ssid = Some ''home''\<rparr>"

definition quiet :: reply where
  "quiet = \<lparr>delivered = [], raised = None, clock = 600\<rparr>"

definition failing :: reply where
  "failing = \<lparr>delivered = [], raised = Some ''timed out'', clock = 600\<rparr>"

definition arrival :: reply where
  "arrival = \<lparr>delivered = [(''weather'', example_obs)], raised = None, clock = 600\<rparr>"

text \<open>The example observation has arrived and has been published.\<close>

definition cached_state :: state where
  "cached_state =
     \<lparr>weather_data = Some example_obs, weather_data_old = Some example_obs, trace = [], calls = 0\<rparr>"

text \<open>
  The same with the temperature of the current observation decoded as the float
  \<open>20.0\<close>, which Python finds equal to the integer 20.
\<close>

definition recached_state :: state where
  "recached_state =
     \<lparr>weather_data = Some (example_obs\<lparr>temperature := PyFloat 20\<rparr>),
      weather_data_old = Some example_obs, trace = [], calls = 0\<rparr>"

text \<open>Every call succeeds and no message arrives.\<close>

definition world_quiet :: world where
  "world_quiet n = quiet"

text \<open>Every call fails.\<close>

definition world_down :: world where
  "world_down n = failing"

text \<open>The first call fails, every later one succeeds.\<close>

definition world_recovers :: world where
  "world_recovers n = (if n = 0 then failing else quiet)"

text \<open>
  The first \<open>aio.loop\<close> delivers the example observation; the publish of the
  condition code (the fourth call) fails and the reconnect after it succeeds.
\<close>

definition world_flaky :: world where
  "world_flaky n = (if n = 0 then arrival else if n = 3 then failing else quiet)"

text \<open>The second call fails, every other one succeeds.\<close>

definition world_second_fails :: world where
  "world_second_fails n = (if n = 1 then failing else quiet)"

text \<open>
  The first \<open>aio.loop\<close> delivers the example observation; the publish of the watchdog
  succeeds, the publish of the description fails and so does the reconnect after it.
\<close>

definition world_cut :: world where
  "world_cut n = (if n = 0 then arrival else if n \<le> 2 then quiet else failing)"

text \<open>
  The example observation with the heading \<open>-22.500000000000004\<close>, the float just
  below \<open>-22.5\<close>, and a world whose first \<open>aio.loop\<close> delivers it.
\<close>

definition skewed_obs :: observation where
  "skewed_obs = example_obs\<lparr>windDirection := Some (PyFloat (- 45 / 2 - 1 / 2 ^ 48))\<rparr>"

definition world_skewed :: world where
  "world_skewed n =
     (if n = 0 then \<lparr>delivered = [(''weather'', skewed_obs)], raised = None, clock = 600\<rparr>
      else quiet)"

text \<open>
  The example observation with one more key, which the loop does not read, and a world
  whose first \<open>aio.loop\<close> delivers it.
\<close>

definition extended_obs :: observation where
  "extended_obs = example_obs\<lparr>other := [''pressure'' \<mapsto> JNum 1013]\<rparr>"

definition world_extended :: world where
  "world_extended n =
     (if n = 0 then \<lparr>delivered = [(''weather'', extended_obs)], raised = None, clock = 600\<rparr>
      else quiet)"

section \<open>Properties of the float arithmetic\<close>

lemma expo_up_le: "1 \<le> x \<Longrightarrow> 2 powi (expo_up n x) \<le> x"
proof (induction n arbitrary: x)
  case 0
  then show ?case by simp
next
  case (Suc n)
  show ?case
  proof (cases "x < 2")
    case True
    with Suc.prems show ?thesis by simp
  next
    case False
    then have "1 \<le> x / 2" by simp
    then have "2 powi (expo_up n (x / 2)) \<le> x / 2" by (rule Suc.IH)
    then have "2 * 2 powi (expo_up n (x / 2)) \<le> x" by simp
    with False show ?thesis by (simp add: power_int_add)
  qed
qed

lemma expo_down_le: "0 < x \<Longrightarrow> x < 1 \<Longrightarrow> 1 \<le> 2 ^ n * x \<Longrightarrow> 2 powi (expo_down n x) \<le> x"
proof (induction n arbitrary: x)
  case 0
  then show ?case by simp
next
  case (Suc n)
  show ?case
  proof (cases "1 \<le> 2 * x")
    case True
    then have "expo_down n (2 * x) = 0" by (cases n) simp_all
    with Suc.prems True show ?thesis by (simp add: power_int_minus)
  next
    case False
    then have "2 * x < 1" by simp
    moreover have "0 < 2 * x" using Suc.prems by simp
    moreover have "1 \<le> 2 ^ n * (2 * x)" using Suc.prems by (simp add: mult.assoc)
    ultimately have "2 powi (expo_down n (2 * x)) \<le> 2 * x" using Suc.IH[of "2 * x"] by simp
    then have "2 powi (expo_down n (2 * x)) / 2 \<le> x" by simp
    moreover have "2 powi (expo_down n (2 * x) - 1) = 2 powi (expo_down n (2 * x)) / (2::real)"
      by (simp add: power_int_diff)
    ultimately show ?thesis using Suc.prems by simp
  qed
qed

lemma expo_le: "1 \<le> 2 ^ 1022 * \<bar>x\<bar> \<Longrightarrow> 2 powi (expo x) \<le> \<bar>x\<bar>"
proof (cases "1 \<le> \<bar>x\<bar>")
  case True
  then show ?thesis by (simp add: expo_def expo_up_le)
next
  case False
  assume "1 \<le> 2 ^ 1022 * \<bar>x\<bar>"
  moreover from this have "0 < \<bar>x\<bar>" by (cases "x = 0") simp_all
  ultimately show ?thesis using False expo_down_le[of "\<bar>x\<bar>" 1022] by (simp add: expo_def)
qed

lemma py_round_of_int: "py_round (of_int z) = z"
  by (simp add: py_round_def)

lemma fl_exact:
  assumes "\<bar>m\<bar> < 2 ^ 53" and "- 1022 \<le> k"
  shows "fl (of_int m * 2 powi k) = of_int m * 2 powi k"
proof (cases "m = 0")
  case True
  then show ?thesis by (simp add: fl_def py_round_of_int[of 0, simplified])
next
  case False
  define x :: real where "x = of_int m * 2 powi k"
  have ax: "\<bar>x\<bar> = of_int \<bar>m\<bar> * 2 powi k" by (simp add: x_def abs_mult)
  have m1: "(1::real) \<le> of_int \<bar>m\<bar>" using False by linarith
  have "(2::real) powi (- 1022) \<le> 2 powi k" using assms(2) by (intro power_int_increasing) simp_all
  also have "\<dots> \<le> \<bar>x\<bar>"
  proof -
    have "0 < (2::real) powi k" by simp
    then have "1 * 2 powi k \<le> of_int \<bar>m\<bar> * (2::real) powi k"
      using m1 by (intro mult_right_mono) simp_all
    then show ?thesis unfolding ax by simp
  qed
  finally have "2 powi (- 1022) \<le> \<bar>x\<bar>" .
  then have "1 \<le> 2 ^ 1022 * \<bar>x\<bar>" by (simp add: power_int_minus field_simps)
  then have "2 powi (expo x) \<le> \<bar>x\<bar>" by (rule expo_le)
  also have "\<bar>x\<bar> < 2 ^ 53 * 2 powi k"
    unfolding ax using assms(1) by (simp add: of_int_less_iff[symmetric, where 'a=real] del: of_int_less_iff)
  also have "\<dots> = 2 powi (53 + k)" by (simp add: power_int_add)
  finally have lt: "(2::real) powi (expo x) < 2 powi (53 + k)" .
  have "expo x < 53 + k"
  proof (rule ccontr)
    assume "\<not> expo x < 53 + k"
    then have "(2::real) powi (53 + k) \<le> 2 powi (expo x)"
      by (intro power_int_increasing) simp_all
    with lt show False by simp
  qed
  then have d: "0 \<le> k - (expo x - 52)" by simp
  define j where "j = nat (k - (expo x - 52))"
  have "x / ulp x = of_int m * (2 powi k / 2 powi (expo x - 52))" by (simp add: x_def ulp_def)
  also have "2 powi k / (2::real) powi (expo x - 52) = 2 powi (k - (expo x - 52))"
    by (simp add: power_int_diff)
  also have "\<dots> = 2 ^ j" using d by (simp add: j_def power_int_def)
  finally have q: "x / ulp x = of_int (m * 2 ^ j)" by simp
  have "fl x = of_int (m * 2 ^ j) * ulp x"
    unfolding fl_def q py_round_of_int ..
  also have "\<dots> = x / ulp x * ulp x" by (simp only: q)
  also have "\<dots> = x" by (simp add: ulp_def)
  finally show ?thesis by (simp add: x_def)
qed

lemma fl_int: "\<bar>m\<bar> < 2 ^ 53 \<Longrightarrow> fl (of_int m) = of_int m"
  using fl_exact[of m 0] by simp

lemma fl_half: "\<bar>m\<bar> < 2 ^ 53 \<Longrightarrow> fl (of_int m / 2) = of_int m / 2"
  using fl_exact[of m "-1"] by (simp add: power_int_minus field_simps)

lemma py_mod_half:
  assumes "odd n" and "\<bar>n\<bar> < 2 ^ 52"
  shows "py_mod (of_int n / 2) 360 = of_int (n mod 720) / 2"
proof -
  have q: "of_int n / 2 / 360 = (of_int n :: real) / of_int 720" by simp
  have odd_mod: "odd (n mod 720)" using assms(1) by presburger
  show ?thesis
  proof (cases "0 \<le> n")
    case True
    then have "py_int (of_int n / 2 / 360) = n div 720"
      unfolding q py_int_def by (simp only: floor_divide_of_int_eq) simp
    moreover have "of_int n / 2 - 360 * of_int (n div 720) = (of_int (n mod 720) :: real) / 2"
      by (simp add: mod_div_mult_eq[symmetric] minus_mult_div_eq_mod[symmetric] field_simps)
    moreover have "0 < n mod 720" using odd_mod by (cases "n mod 720 = 0") (simp_all add: less_le)
    ultimately show ?thesis by (simp add: py_mod_def Let_def)
  next
    case False
    then have neg: "n < 0" by simp
    have "\<lceil>(of_int n :: real) / of_int 720\<rceil> = - ((- n) div 720)"
      unfolding ceiling_def by (simp only: floor_divide_of_int_eq minus_divide_left of_int_minus[symmetric])
    with neg have "py_int (of_int n / 2 / 360) = - ((- n) div 720)"
      unfolding q py_int_def by (simp add: divide_less_0_iff)
    then have pi: "py_int (of_int n / 2 / 360) = - ((- n) div 720)" .
    have nz: "n mod 720 \<noteq> 0" using odd_mod by auto
    then have m: "(- n) mod 720 = 720 - n mod 720" by (simp add: zmod_zminus1_eq_if)
    have lt: "n mod 720 < 720" by simp
    have ge: "0 \<le> n mod 720" by simp
    define r :: real where "r = of_int n / 2 - 360 * of_int (py_int (of_int n / 2 / 360))"
    have "r = - (of_int ((- n) mod 720) :: real) / 2"
      unfolding r_def pi by (simp add: minus_mult_div_eq_mod[symmetric] field_simps)
    then have r: "r = (of_int (n mod 720) - 720) / 2" unfolding m by simp
    have rneg: "r < 0" unfolding r using lt by simp
    have "r + 360 = of_int (n mod 720) / 2" unfolding r by argo
    moreover have "fl (of_int (n mod 720) / 2) = of_int (n mod 720) / 2"
      using lt ge by (intro fl_half) simp
    ultimately have "fadd r 360 = of_int (n mod 720) / 2" unfolding fadd_def by (simp only:)
    with rneg show ?thesis unfolding py_mod_def Let_def r_def[symmetric] by simp
  qed
qed

lemma whole_degrees:
  assumes "\<bar>k\<bar> < 2 ^ 50"
  shows "py_mod (fadd (of_int k) 22.5) 360 = of_int ((2 * k + 45) mod 720) / 2"
proof -
  have e: "of_int k + 22.5 = (of_int (2 * k + 45) :: real) / 2" by simp
  have b: "\<bar>2 * k + 45\<bar> < 2 ^ 52" using assms by simp
  then have "\<bar>2 * k + 45\<bar> < 2 ^ 53" by simp
  then have "fl (of_int (2 * k + 45) / 2) = of_int (2 * k + 45) / 2" by (rule fl_half)
  then have f: "fadd (of_int k) 22.5 = of_int (2 * k + 45) / 2"
    unfolding fadd_def e .
  have "odd (2 * k + 45)" by simp
  then have "py_mod (of_int (2 * k + 45) / 2) 360 = of_int ((2 * k + 45) mod 720) / 2"
    using b by (rule py_mod_half)
  then show ?thesis by (simp only: f)
qed

text \<open>
  The model on known floats: the float nearest to \<open>0.1\<close>; a tiny negative remainder
  rounds up to the modulus itself; and for the heading just below \<open>-22.5\<close>
  (\<open>-22.500000000000004\<close>) the index is 8 and \<open>wind_direction\<close> raises.
\<close>

lemma fl_tenth: "fl (1 / 10) = 3602879701896397 / 2 ^ 55"
  by (simp add: fl_def ulp_def expo_def py_round_def eval_nat_numeral)

lemma py_mod_tiny_negative: "py_mod (- (1 / 2 ^ 60)) 360 = 360"
  by (simp add: py_mod_def py_int_def ceiling_def fadd_def fl_def ulp_def expo_def py_round_def
        eval_nat_numeral)

lemma wind_direction_raises:
  "fl (- 45 / 2 - 1 / 2 ^ 48) = - 45 / 2 - 1 / 2 ^ 48 \<and>
   wind_direction (Some (- 45 / 2 - 1 / 2 ^ 48)) = Inl (IndexError 8)"
  by (simp add: wind_direction_def fadd_def fdiv_def py_mod_def py_int_def ceiling_def py_index_def
        compass_def fl_def ulp_def expo_def py_round_def eval_nat_numeral)

section \<open>Properties of the script\<close>

lemma publishes_append: "publishes (a @ b) = publishes a @ publishes b"
  by (induction a rule: publishes.induct) simp_all

lemma attempts_append: "attempts (a @ b) = attempts a @ attempts b"
  by (induction a rule: attempts.induct) simp_all

lemma publishes_blink: "publishes (blink n) = []"
  by (induction n) simp_all

lemma and_then_Normal: "and_then (Normal s) f = f s"
  by (simp add: and_then_def)

lemma and_then_Reloaded: "and_then (Reloaded s) f = Reloaded s"
  by (simp add: and_then_def)

lemma and_then_Uncaught: "and_then (Uncaught e s) f = Uncaught e s"
  by (simp add: and_then_def)

lemma new_events_append: "trace (state_of r) = trace s @ evs \<Longrightarrow> new_events s r = evs"
  by (simp add: new_events_def)

lemma new_events_trans:
  assumes "trace s1 = trace s @ a" and "trace (state_of r) = trace s1 @ b"
  shows "new_events s r = a @ b"
  using assms by (simp add: new_events_def)

text \<open>The four ways through \<open>publish_to_aio\<close>.\<close>

lemma publish_to_aio_None:
  "publish_to_aio w None feed s = Normal (s\<lparr>trace := trace s @ [Print (PublishFailed None feed)]\<rparr>)"
  by (simp add: publish_to_aio_def emit_def)

lemma publish_to_aio_ok:
  assumes "raised (w (calls s)) = None"
  shows "publish_to_aio w (Some v) feed s =
           Normal (s\<lparr>trace := trace s @ [Sleep 2.5, AioPublish feed v, SetPixel 0x00FF00,
                                         Print (PublishSuccess v feed)],
                     calls := Suc (calls s)\<rparr>)"
  using assms by (simp add: publish_to_aio_def emit_def ask_def)

lemma publish_to_aio_recovered:
  assumes "raised (w (calls s)) = Some e" and "raised (w (Suc (calls s))) = None"
  shows "publish_to_aio w (Some v) feed s =
           Normal (s\<lparr>trace := trace s @ [Sleep 2.5, AioPublish feed v, SetPixel 0xFF0000,
                                         Print (PublishFailed (Some v) feed), Print (PublishError e),
                                         Print AttemptingReconnect, AioReconnect, SetPixel 0x00FF00],
                     calls := Suc (Suc (calls s))\<rparr>)"
  using assms by (simp add: publish_to_aio_def emit_def ask_def)

lemma publish_to_aio_fatal:
  assumes "raised (w (calls s)) = Some e" and "raised (w (Suc (calls s))) = Some e'"
  shows "publish_to_aio w (Some v) feed s =
           Reloaded (s\<lparr>trace := trace s @ [Sleep 2.5, AioPublish feed v, SetPixel 0xFF0000,
                                         Print (PublishFailed (Some v) feed), Print (PublishError e),
                                         Print AttemptingReconnect, AioReconnect, SetPixel 0xFF0000,
                                         Print (PublishReconnectFailed e'), Print SoftResetNotice,
                                         Sleep 60, Reload],
                     calls := Suc (Suc (calls s))\<rparr>)"
  using assms by (simp add: publish_to_aio_def emit_def ask_def)

text \<open>The three ways through the fetch.\<close>

lemma message_trace_upd: "message f p (s\<lparr>trace := t\<rparr>) = (message f p s)\<lparr>trace := t\<rparr>"
  by (simp add: message_def)

lemma message_calls_upd: "message f p (s\<lparr>calls := c\<rparr>) = (message f p s)\<lparr>calls := c\<rparr>"
  by (simp add: message_def)

lemma deliver_trace_upd: "deliver ms (s\<lparr>trace := t\<rparr>) = (deliver ms s)\<lparr>trace := t\<rparr>"
  by (induction ms s rule: deliver.induct) (simp_all add: message_trace_upd)

lemma deliver_calls_upd: "deliver ms (s\<lparr>calls := c\<rparr>) = (deliver ms s)\<lparr>calls := c\<rparr>"
  by (induction ms s rule: deliver.induct) (simp_all add: message_calls_upd)

lemma deliver_trace: "trace (deliver ms s) = trace s"
  by (induction ms s rule: deliver.induct) (simp_all add: message_def)

lemma deliver_calls: "calls (deliver ms s) = calls s"
  by (induction ms s rule: deliver.induct) (simp_all add: message_def)

lemma deliver_old: "weather_data_old (deliver ms s) = weather_data_old s"
  by (induction ms s rule: deliver.induct) (simp_all add: message_def)

lemmas deliver_simps = deliver_trace_upd deliver_calls_upd deliver_trace deliver_calls deliver_old

lemma fetch_ok:
  assumes "raised (w (calls s)) = None"
  shows "fetch w s =
           Normal ((deliver (delivered (w (calls s))) s)
                     \<lparr>trace := trace s @ [SetPixel 0xFFFF00, Sleep 2.5, AioLoop 10, SetPixel 0x00FF00],
                      calls := Suc (calls s)\<rparr>)"
  using assms
  by (simp add: fetch_def emit_def ask_def deliver_simps)

lemma fetch_recovered:
  assumes "raised (w (calls s)) = Some e" and "raised (w (Suc (calls s))) = None"
  shows "fetch w s =
           Normal ((deliver (delivered (w (calls s))) s)
                     \<lparr>trace := trace s @ [SetPixel 0xFFFF00, Sleep 2.5, AioLoop 10, SetPixel 0xFF0000,
                                         Print (LoopFailed e), Print LoopAttemptingReconnect, Sleep 10,
                                         AioConnect, SetPixel 0x00FF00],
                      calls := Suc (Suc (calls s))\<rparr>)"
  using assms
  by (simp add: fetch_def emit_def ask_def deliver_simps)

lemma fetch_fatal:
  assumes "raised (w (calls s)) = Some e" and "raised (w (Suc (calls s))) = Some e'"
  shows "fetch w s =
           Reloaded ((deliver (delivered (w (calls s))) s)
                     \<lparr>trace := trace s @ [SetPixel 0xFFFF00, Sleep 2.5, AioLoop 10, SetPixel 0xFF0000,
                                         Print (LoopFailed e), Print LoopAttemptingReconnect, Sleep 10,
                                         AioConnect, SetPixel 0xFF0000, Print (LoopReconnectFailed e'),
                                         Print SoftResetNotice, Sleep 60, Reload],
                      calls := Suc (Suc (calls s))\<rparr>)"
  using assms
  by (simp add: fetch_def emit_def ask_def deliver_simps)

text \<open>Events of consecutive pieces.\<close>

lemma trace_ext:
  "prefix (trace s) (trace (state_of r)) \<Longrightarrow> trace (state_of r) = trace s @ new_events s r"
  by (auto simp: prefix_def new_events_def)

lemma new_events_self: "new_events s (Normal s) = []"
  by (simp add: new_events_def)

lemma new_events_split:
  assumes "prefix (trace s) (trace s1)" and "prefix (trace s1) (trace (state_of r))"
  shows "new_events s r = new_events s (Normal s1) @ new_events s1 r"
proof -
  from assms obtain a b where "trace s1 = trace s @ a" "trace (state_of r) = trace s1 @ b"
    by (auto simp: prefix_def)
  then show ?thesis by (simp add: new_events_def)
qed

lemma ends_well_refl: "ends_well s (Normal s)"
  by (simp add: ends_well_def new_events_def)

lemma ends_well_emit: "Reload \<notin> set evs \<Longrightarrow> ends_well s (Normal (emit evs s))"
  by (simp add: ends_well_def new_events_def emit_def count_list_0_iff)

lemma ends_well_prefix: "ends_well s r \<Longrightarrow> prefix (trace s) (trace (state_of r))"
  by (simp add: ends_well_def)

lemma ends_well_calls: "ends_well s r \<Longrightarrow> calls s \<le> calls (state_of r)"
  by (simp add: ends_well_def)

lemma ends_well_step:
  assumes a: "ends_well s (Normal s1)" and b: "ends_well s1 r"
  shows "ends_well s r"
proof -
  have p1: "prefix (trace s) (trace s1)" using a by (simp add: ends_well_def)
  have p2: "prefix (trace s1) (trace (state_of r))" using b by (simp add: ends_well_def)
  have sp: "new_events s r = new_events s (Normal s1) @ new_events s1 r"
    using p1 p2 by (rule new_events_split)
  have z: "count_list (new_events s (Normal s1)) Reload = 0" using a by (simp add: ends_well_def)
  have c: "calls s \<le> calls (state_of r)" using a b by (simp add: ends_well_def)
  have p: "prefix (trace s) (trace (state_of r))" using p1 p2 by (rule prefix_order.trans)
  show ?thesis
  proof (cases r)
    case (Normal s')
    with b z sp p c show ?thesis by (simp add: ends_well_def)
  next
    case (Reloaded s')
    with b have "suffix restart_tail (new_events s1 r)" by (simp add: ends_well_def)
    then have "suffix restart_tail (new_events s r)" unfolding sp by (rule suffix_appendI)
    with Reloaded b z sp p c show ?thesis by (simp add: ends_well_def)
  next
    case (Uncaught e s')
    with b z sp p c show ?thesis by (simp add: ends_well_def)
  qed
qed

lemma ends_well_and_then:
  assumes "ends_well s r" and "\<And>s1. r = Normal s1 \<Longrightarrow> ends_well s1 (f s1)"
  shows "ends_well s (and_then r f)"
proof (cases r)
  case (Normal s1)
  with assms have "ends_well s (Normal s1)" "ends_well s1 (f s1)" by simp_all
  then have "ends_well s (f s1)" by (rule ends_well_step)
  with Normal show ?thesis by (simp add: and_then_def)
next
  case (Reloaded s')
  with assms(1) show ?thesis by (simp add: and_then_def ends_well_def new_events_def)
next
  case (Uncaught e s')
  with assms(1) show ?thesis by (simp add: and_then_def ends_well_def new_events_def)
qed

lemma ends_well_publish_to_aio: "ends_well s (publish_to_aio w val feed s)"
proof (cases val)
  case None
  then show ?thesis
    by (simp add: publish_to_aio_None ends_well_def new_events_def)
next
  case (Some v)
  show ?thesis
  proof (cases "raised (w (calls s))")
    case None
    then show ?thesis unfolding Some
      by (simp add: publish_to_aio_ok ends_well_def new_events_def)
  next
    case e: (Some e)
    show ?thesis
    proof (cases "raised (w (Suc (calls s)))")
      case None
      with e show ?thesis unfolding Some
        by (simp add: publish_to_aio_recovered ends_well_def new_events_def)
    next
      case (Some e')
      with e show ?thesis unfolding \<open>val = Some v\<close>
        by (simp add: publish_to_aio_fatal ends_well_def new_events_def restart_tail_def suffix_def)
    qed
  qed
qed

lemma ends_well_publish_seq: "ends_well s (publish_seq w items s)"
proof (induction items arbitrary: s)
  case Nil
  show ?case by (simp add: ends_well_refl)
next
  case (Cons item items)
  obtain val feed where item: "item = (val, feed)" by (cases item)
  show ?case unfolding item publish_seq.simps
    by (rule ends_well_and_then) (rule ends_well_publish_to_aio, rule Cons.IH)
qed

lemma ends_well_fetch: "ends_well s (fetch w s)"
proof (cases "raised (w (calls s))")
  case None
  then show ?thesis by (simp add: fetch_ok ends_well_def new_events_def)
next
  case e: (Some e)
  show ?thesis
  proof (cases "raised (w (Suc (calls s)))")
    case None
    with e show ?thesis by (simp add: fetch_recovered ends_well_def new_events_def)
  next
    case (Some e')
    with e show ?thesis
      by (simp add: fetch_fatal ends_well_def new_events_def restart_tail_def suffix_def)
  qed
qed

text \<open>What \<open>publish_to_aio\<close> and a sequence of its calls send and leave alone.\<close>

lemma publish_to_aio_sends:
  "publishes (new_events s (publish_to_aio w val feed s)) = attempts [(val, feed)]"
proof (cases val)
  case None
  then show ?thesis by (simp add: publish_to_aio_None new_events_def)
next
  case (Some v)
  show ?thesis
  proof (cases "raised (w (calls s))")
    case None
    then show ?thesis unfolding Some by (simp add: publish_to_aio_ok new_events_def)
  next
    case e: (Some e)
    show ?thesis
    proof (cases "raised (w (Suc (calls s)))")
      case None
      with e show ?thesis unfolding Some by (simp add: publish_to_aio_recovered new_events_def)
    next
      case (Some e')
      with e show ?thesis unfolding \<open>val = Some v\<close>
        by (simp add: publish_to_aio_fatal new_events_def)
    qed
  qed
qed

lemma publish_to_aio_keeps:
  "weather_data (state_of (publish_to_aio w val feed s)) = weather_data s \<and>
   weather_data_old (state_of (publish_to_aio w val feed s)) = weather_data_old s \<and>
   (\<forall>e s'. publish_to_aio w val feed s \<noteq> Uncaught e s')"
  by (simp add: publish_to_aio_def emit_def ask_def Let_def split: option.splits)

lemma attempts_Cons: "attempts (item # rest) = attempts [item] @ attempts rest"
  by (cases item; cases "fst item") auto

lemma publish_seq_keeps:
  "weather_data (state_of (publish_seq w items s)) = weather_data s \<and>
   weather_data_old (state_of (publish_seq w items s)) = weather_data_old s \<and>
   (\<forall>e s'. publish_seq w items s \<noteq> Uncaught e s')"
proof (induction items arbitrary: s)
  case Nil
  show ?case by simp
next
  case (Cons item items)
  obtain val feed where item: "item = (val, feed)" by (cases item)
  show ?case
  proof (cases "publish_to_aio w val feed s")
    case (Normal s1)
    with publish_to_aio_keeps[of w val feed s] Cons.IH[of s1] show ?thesis
      by (simp add: item and_then_def)
  next
    case (Reloaded s1)
    with publish_to_aio_keeps[of w val feed s] show ?thesis
      by (simp add: item and_then_def)
  next
    case (Uncaught e s1)
    with publish_to_aio_keeps[of w val feed s] show ?thesis by simp
  qed
qed

lemma publish_seq_sends:
  "prefix (publishes (new_events s (publish_seq w items s))) (attempts items) \<and>
   (\<forall>s'. publish_seq w items s = Normal s' \<longrightarrow>
      publishes (new_events s (publish_seq w items s)) = attempts items)"
proof (induction items arbitrary: s)
  case Nil
  show ?case by (simp add: new_events_def)
next
  case (Cons item items)
  obtain val feed where item: "item = (val, feed)" by (cases item)
  have one: "publishes (new_events s (publish_to_aio w val feed s)) = attempts [item]"
    unfolding item by (rule publish_to_aio_sends)
  have split: "attempts (item # items) = attempts [item] @ attempts items"
    by (rule attempts_Cons)
  show ?case
  proof (cases "publish_to_aio w val feed s")
    case (Normal s1)
    have p1: "prefix (trace s) (trace s1)"
      using ends_well_prefix[OF ends_well_publish_to_aio[of s w val feed]] Normal by simp
    have p2: "prefix (trace s1) (trace (state_of (publish_seq w items s1)))"
      by (rule ends_well_prefix[OF ends_well_publish_seq])
    have "new_events s (publish_seq w items s1) =
            new_events s (Normal s1) @ new_events s1 (publish_seq w items s1)"
      using p1 p2 by (rule new_events_split)
    then have "publishes (new_events s (publish_seq w items s1)) =
                 attempts [item] @ publishes (new_events s1 (publish_seq w items s1))"
      using one Normal by (simp add: publishes_append)
    moreover have "publish_seq w (item # items) s = publish_seq w items s1"
      using Normal by (simp add: item and_then_def)
    ultimately show ?thesis using Cons.IH[of s1] by (auto simp: split)
  next
    case (Reloaded s1)
    then have "publish_seq w (item # items) s = Reloaded s1" by (simp add: item and_then_def)
    moreover have "new_events s (Reloaded s1) = new_events s (publish_to_aio w val feed s)"
      using Reloaded by simp
    ultimately show ?thesis using one by (simp add: split)
  next
    case (Uncaught e s1)
    with publish_to_aio_keeps[of w val feed s] show ?thesis by simp
  qed
qed

lemma publish_seq_append:
  "publish_seq w (pre @ rest) s = and_then (publish_seq w pre s) (publish_seq w rest)"
proof (induction pre arbitrary: s)
  case Nil
  show ?case by (simp add: and_then_def)
next
  case (Cons item pre)
  obtain val feed where item: "item = (val, feed)" by (cases item)
  show ?case
    by (cases "publish_to_aio w val feed s") (simp_all add: item and_then_def Cons.IH)
qed

text \<open>The new observation: what happens before the first publish.\<close>

lemma icon_lookup_shape:
  "\<exists>icon long_desc evs. icon_lookup tbl d dl s = Inr ((icon, long_desc), emit evs s) \<and>
     Reload \<notin> set evs \<and> publishes evs = []"
proof (cases "tbl d")
  case None
  then have "icon_lookup tbl d dl s =
               Inr ((''99d'', ''unknown description: '' @ d), emit [Print (NoDescription d)] s)"
    by (simp add: icon_lookup_def icon_try_def table_get_def)
  then show ?thesis by (intro exI[of _ "[Print (NoDescription d)]"] exI) simp
next
  case (Some v)
  obtain long base where v: "v = (long, base)" by (cases v)
  have "emit [] s = s" by (simp add: emit_def)
  with Some v have "icon_lookup tbl d dl s =
               Inr ((if dl then base @ ''d'' else base @ ''n'', long), emit [] s)"
    by (simp add: icon_lookup_def icon_try_def table_get_def)
  then show ?thesis by (intro exI[of _ "[]"] exI) simp
qed

lemma new_observation_shape:
  "(\<exists>e s'. new_observation l w wd s = Uncaught e s' \<and> ends_well s (Uncaught e s') \<and>
       publishes (new_events s (Uncaught e s')) = [] \<and>
       weather_data s' = weather_data s \<and> weather_data_old s' = weather_data_old s)
   \<or> (\<exists>label s6. wind_direction (map_option to_float (windDirection wd)) = Inr label \<and>
       ends_well s (Normal s6) \<and>
       publishes (new_events s (Normal s6)) = [] \<and> calls s6 = Suc (calls s) \<and>
       weather_data s6 = weather_data s \<and> weather_data_old s6 = weather_data_old s \<and>
       new_observation l w wd s =
         and_then (publish_seq w (publish_calls l wd (clock (w (calls s))) label) s6)
                  (\<lambda>s7. Normal (s7\<lparr>weather_data_old := weather_data s7\<rparr>)))"
proof (cases "wind_direction (map_option to_float (windDirection wd))")
  case (Inl e)
  then have "new_observation l w wd s = Uncaught e s"
    by (simp add: new_observation_def Let_def)
  then show ?thesis by (simp add: ends_well_def new_events_def)
next
  case (Inr label)
  let ?ts = "readTime wd"
  show ?thesis
  proof (cases "fromisoformat l (butlast ?ts)")
    case None
    with Inr have "new_observation l w wd s =
        Uncaught (ValueError (butlast ?ts)) (emit [Print NewBanner, Print (Timestamp ?ts)] s)"
      by (simp add: new_observation_def Let_def)
    then show ?thesis by (simp add: ends_well_def new_events_def emit_def)
  next
    case (Some sample_time)
    let ?s2 = "emit [Print NewBanner, Print (Timestamp ?ts), Print (SampleTime sample_time)] s"
    have s2: "emit [Print (SampleTime sample_time)]
                (emit [Print NewBanner, Print (Timestamp ?ts)] s) = ?s2"
      by (simp add: emit_def)
    show ?thesis
    proof (cases "minus_hours sample_time 7")
      case ovf: (Inl e)
      have "new_observation l w wd s = Uncaught e ?s2"
        unfolding new_observation_def Let_def Inr Some sum.case option.case s2 ovf ..
      then show ?thesis by (simp add: ends_well_def new_events_def emit_def)
    next
      case lt: (Inr local_time)
      let ?s3 = "emit [Print NewBanner, Print (Timestamp ?ts), Print (SampleTime sample_time),
                       Print (LocalTime local_time)] s"
      obtain icon long_desc evs where
        ic: "icon_lookup (kit_to_map_icon l) (conditionCode wd) (daylight wd) ?s3 =
               Inr ((icon, long_desc), emit evs ?s3)"
        and evs: "Reload \<notin> set evs" "publishes evs = []"
        using icon_lookup_shape by blast
      let ?s6 = "snd (ask w Monotonic (emit [Print (Icon icon), Print (LongDescription long_desc)] (emit evs ?s3)))"
      have s3: "emit [Print (LocalTime local_time)] ?s2 = ?s3"
        by (simp add: emit_def)
      have eq: "new_observation l w wd s =
           and_then (publish_seq w (publish_calls l wd (clock (w (calls s))) label) ?s6)
                    (\<lambda>s7. Normal (s7\<lparr>weather_data_old := weather_data s7\<rparr>))"
        unfolding new_observation_def Let_def Inr Some sum.case option.case s2 lt s3 ic
        by (simp add: publish_calls_def ask_def emit_def)
      have "ends_well s (Normal ?s6)"
        using evs by (simp add: ends_well_def new_events_def emit_def ask_def count_list_0_iff)
      moreover have "publishes (new_events s (Normal ?s6)) = []"
        using evs by (simp add: new_events_def emit_def ask_def publishes_append)
      moreover have "calls ?s6 = Suc (calls s)" "weather_data ?s6 = weather_data s"
          "weather_data_old ?s6 = weather_data_old s"
        by (simp_all add: emit_def ask_def)
      ultimately show ?thesis using Inr eq by blast
    qed
  qed
qed

lemma commit_state:
  "trace (state_of (and_then q (\<lambda>s7. Normal (s7\<lparr>weather_data_old := weather_data s7\<rparr>)))) = trace (state_of q) \<and>
   calls (state_of (and_then q (\<lambda>s7. Normal (s7\<lparr>weather_data_old := weather_data s7\<rparr>)))) = calls (state_of q) \<and>
   weather_data (state_of (and_then q (\<lambda>s7. Normal (s7\<lparr>weather_data_old := weather_data s7\<rparr>)))) = weather_data (state_of q)"
  by (cases q) (simp_all add: and_then_def)

lemma ends_well_commit:
  assumes "ends_well s q"
  shows "ends_well s (and_then q (\<lambda>s7. Normal (s7\<lparr>weather_data_old := weather_data s7\<rparr>)))"
  using assms by (cases q) (simp_all add: and_then_def ends_well_def new_events_def)

lemma new_events_commit:
  "new_events s (and_then q (\<lambda>s7. Normal (s7\<lparr>weather_data_old := weather_data s7\<rparr>))) = new_events s q"
  by (simp add: new_events_def commit_state)

lemma new_observation_summary:
  "ends_well s (new_observation l w wd s) \<and>
   weather_data (state_of (new_observation l w wd s)) = weather_data s \<and>
   (\<forall>s'. new_observation l w wd s = Normal s' \<longrightarrow> weather_data_old s' = weather_data s) \<and>
   (publishes (new_events s (new_observation l w wd s)) = [] \<or>
    (\<exists>label. wind_direction (map_option to_float (windDirection wd)) = Inr label \<and>
       prefix (publishes (new_events s (new_observation l w wd s)))
              (attempts (publish_calls l wd (clock (w (calls s))) label)) \<and>
       (\<forall>s'. new_observation l w wd s = Normal s' \<longrightarrow>
          publishes (new_events s (new_observation l w wd s)) =
            attempts (publish_calls l wd (clock (w (calls s))) label))))"
  (is "?E \<and> ?W \<and> ?O \<and> ?P")
proof -
  let ?r = "new_observation l w wd s"
  from new_observation_shape[of l w wd s] show ?thesis
  proof (elim disjE exE conjE)
    fix e s'
    assume "?r = Uncaught e s'" "ends_well s (Uncaught e s')"
       "publishes (new_events s (Uncaught e s')) = []" "weather_data s' = weather_data s"
    then show ?thesis by simp
  next
    fix label s6
    let ?items = "publish_calls l wd (clock (w (calls s))) label"
    let ?q = "publish_seq w ?items s6"
    assume lab: "wind_direction (map_option to_float (windDirection wd)) = Inr label"
      and e6: "ends_well s (Normal s6)"
      and p6: "publishes (new_events s (Normal s6)) = []"
      and w6: "weather_data s6 = weather_data s"
      and r: "?r = and_then ?q (\<lambda>s7. Normal (s7\<lparr>weather_data_old := weather_data s7\<rparr>))"
    have eq: "ends_well s6 ?q" by (rule ends_well_publish_seq)
    have kq: "weather_data (state_of ?q) = weather_data s6" "\<forall>e s'. ?q \<noteq> Uncaught e s'"
      using publish_seq_keeps[of w ?items s6] by simp_all
    have sq: "prefix (publishes (new_events s6 ?q)) (attempts ?items)"
        "\<forall>s'. ?q = Normal s' \<longrightarrow> publishes (new_events s6 ?q) = attempts ?items"
      using publish_seq_sends[of s6 w ?items] by simp_all
    have E: ?E unfolding r by (rule ends_well_commit) (rule ends_well_step[OF e6 eq])
    have W: ?W unfolding r using kq(1) w6 by (simp add: commit_state)
    have O: ?O unfolding r using kq(1) w6 by (cases ?q) (auto simp: and_then_def)
    have "new_events s ?r = new_events s ?q" unfolding r by (rule new_events_commit)
    also have "\<dots> = new_events s (Normal s6) @ new_events s6 ?q"
      using ends_well_prefix[OF e6] ends_well_prefix[OF eq] by (intro new_events_split) simp_all
    finally have pubs: "publishes (new_events s ?r) = publishes (new_events s6 ?q)"
      using p6 by (simp add: publishes_append)
    have n: "\<forall>s'. ?r = Normal s' \<longrightarrow> (\<exists>s''. ?q = Normal s'')"
      unfolding r by (cases ?q) (auto simp: and_then_def)
    have P: ?P
    proof (rule disjI2, intro exI[of _ label] conjI allI impI)
      show "wind_direction (map_option to_float (windDirection wd)) = Inr label" by (rule lab)
      show "prefix (publishes (new_events s ?r)) (attempts ?items)"
        unfolding pubs by (rule sq(1))
      fix s' assume "?r = Normal s'"
      with n obtain s'' where "?q = Normal s''" by blast
      with sq(2) show "publishes (new_events s ?r) = attempts ?items"
        unfolding pubs by blast
    qed
    from E W O P show ?thesis by blast
  qed
qed

text \<open>\<open>busy\<close> blinks and changes nothing else.\<close>

lemma blink_no_reload: "Reload \<notin> set (blink n)"
  by (induction n) simp_all

lemma length_blink: "length (blink n) = 4 * n"
  by (induction n) simp_all

lemma blink_replicate:
  "blink n = concat (replicate n [SetLed True, Sleep (fl 0.05), SetLed False, Sleep (fl 0.95)])"
  by (induction n) simp_all

lemma count_list_ticks: "count_list (concat (replicate n xs)) x = n * count_list xs x"
  by (induction n) simp_all

lemma busy_state:
  "busy d s = s\<lparr>trace := trace s @ SetPixel 0 # blink (nat (py_round d))\<rparr>"
  by (simp add: busy_def emit_def)

lemma ends_well_busy: "ends_well s (Normal (busy d s))"
  unfolding busy_def by (rule ends_well_emit) (simp add: blink_no_reload)

lemma busy_sends: "publishes (new_events s (Normal (busy d s))) = []"
  by (simp add: busy_state new_events_def publishes_blink)

lemma busy_fields:
  "weather_data (busy d s) = weather_data s" "weather_data_old (busy d s) = weather_data_old s"
  "calls (busy d s) = calls s"
  by (simp_all add: busy_state)

lemma then_busy:
  assumes "ends_well s q"
  shows "ends_well s (and_then q (\<lambda>s'. Normal (busy d s'))) \<and>
    publishes (new_events s (and_then q (\<lambda>s'. Normal (busy d s')))) = publishes (new_events s q) \<and>
    weather_data (state_of (and_then q (\<lambda>s'. Normal (busy d s')))) = weather_data (state_of q) \<and>
    weather_data_old (state_of (and_then q (\<lambda>s'. Normal (busy d s')))) = weather_data_old (state_of q) \<and>
    (\<forall>s'. and_then q (\<lambda>s'. Normal (busy d s')) = Normal s' \<longrightarrow> (\<exists>s1. q = Normal s1))"
proof (cases q)
  case (Normal s1)
  have e1: "ends_well s (Normal s1)" using assms Normal by simp
  have e2: "ends_well s1 (Normal (busy d s1))" by (rule ends_well_busy)
  have "new_events s (Normal (busy d s1)) = new_events s (Normal s1) @ new_events s1 (Normal (busy d s1))"
    using ends_well_prefix[OF e1] ends_well_prefix[OF e2] by (intro new_events_split) simp_all
  then have "publishes (new_events s (Normal (busy d s1))) = publishes (new_events s (Normal s1))"
    by (simp add: publishes_append busy_sends)
  moreover have "ends_well s (Normal (busy d s1))" using e1 e2 by (rule ends_well_step)
  ultimately show ?thesis using Normal by (simp add: and_then_def busy_fields)
next
  case (Reloaded s1)
  with assms show ?thesis by (simp add: and_then_def)
next
  case (Uncaught e s1)
  with assms show ?thesis by (simp add: and_then_def)
qed

lemma repeat_weather_None:
  "weather_data s = None \<Longrightarrow>
     repeat_weather l w s = Normal (busy 10 (emit [Print WaitingForObservations] s))"
  by (simp add: repeat_weather_def)

lemma dict_eq_refl: "dict_eq a a"
  by (simp add: dict_eq_def num_eq_def split: option.splits)

lemma differs_refl: "\<not> differs x x"
  by (cases x) (simp_all add: dict_eq_refl)

lemma repeat_weather_same:
  "weather_data s = Some wd \<Longrightarrow> \<not> differs (Some wd) (weather_data_old s) \<Longrightarrow>
     repeat_weather l w s = Normal (busy 120 s)"
  by (simp add: repeat_weather_def and_then_def)

lemma repeat_weather_new:
  "weather_data s = Some wd \<Longrightarrow> differs (Some wd) (weather_data_old s) \<Longrightarrow>
     repeat_weather l w s = and_then (new_observation l w wd s) (\<lambda>s'. Normal (busy 120 s'))"
  by (simp add: repeat_weather_def)

lemma repeat_weather_summary:
  "ends_well s (repeat_weather l w s) \<and>
   weather_data (state_of (repeat_weather l w s)) = weather_data s \<and>
   (\<forall>s'. repeat_weather l w s = Normal s' \<longrightarrow> weather_data s \<noteq> None \<longrightarrow>
      differs (weather_data s) (weather_data_old s) \<longrightarrow> weather_data_old s' = weather_data s) \<and>
   (\<not> differs (weather_data s) (weather_data_old s) \<longrightarrow>
      weather_data_old (state_of (repeat_weather l w s)) = weather_data_old s) \<and>
   (publishes (new_events s (repeat_weather l w s)) = [] \<or>
    (\<exists>wd label. weather_data s = Some wd \<and> differs (Some wd) (weather_data_old s) \<and>
       wind_direction (map_option to_float (windDirection wd)) = Inr label \<and>
       prefix (publishes (new_events s (repeat_weather l w s)))
              (attempts (publish_calls l wd (clock (w (calls s))) label)) \<and>
       (\<forall>s'. repeat_weather l w s = Normal s' \<longrightarrow>
          publishes (new_events s (repeat_weather l w s)) =
            attempts (publish_calls l wd (clock (w (calls s))) label))))"
proof (cases "weather_data s")
  case None
  have "ends_well s (Normal (emit [Print WaitingForObservations] s))"
    by (rule ends_well_emit) simp
  then have "ends_well s (Normal (busy 10 (emit [Print WaitingForObservations] s)))"
    using ends_well_busy by (rule ends_well_step)
  moreover have "publishes (new_events s (Normal (busy 10 (emit [Print WaitingForObservations] s)))) = []"
    by (simp add: busy_state emit_def new_events_def publishes_blink)
  ultimately show ?thesis using None
    by (simp add: repeat_weather_None busy_fields emit_def)
next
  case (Some wd)
  show ?thesis
  proof (cases "differs (Some wd) (weather_data_old s)")
    case False
    with Some show ?thesis
      by (simp add: repeat_weather_same ends_well_busy busy_sends busy_fields)
  next
    case True
    let ?q = "new_observation l w wd s"
    let ?r = "and_then ?q (\<lambda>s'. Normal (busy 120 s'))"
    have r: "repeat_weather l w s = ?r" using Some True by (rule repeat_weather_new)
    note q = new_observation_summary[of s l w wd]
    have eq: "ends_well s ?q" using q by blast
    note b = then_busy[OF eq, of 120]
    have 1: "ends_well s ?r" using b by blast
    have 2: "weather_data (state_of ?r) = weather_data s" using b q by simp
    have 3: "\<forall>s'. ?r = Normal s' \<longrightarrow> weather_data_old s' = weather_data s"
    proof (intro allI impI)
      fix s' assume n: "?r = Normal s'"
      with b obtain s1 where s1: "?q = Normal s1" by blast
      with q have "weather_data_old s1 = weather_data s" by blast
      moreover have "s' = busy 120 s1" using n s1 by (simp add: and_then_def)
      ultimately show "weather_data_old s' = weather_data s" by (simp add: busy_fields)
    qed
    have pubs: "publishes (new_events s ?r) = publishes (new_events s ?q)" using b by blast
    have n: "\<forall>s'. ?r = Normal s' \<longrightarrow> (\<exists>s1. ?q = Normal s1)" using b by blast
    have 4: "publishes (new_events s ?r) = [] \<or>
       (\<exists>label. wind_direction (map_option to_float (windDirection wd)) = Inr label \<and>
          prefix (publishes (new_events s ?r)) (attempts (publish_calls l wd (clock (w (calls s))) label)) \<and>
          (\<forall>s'. ?r = Normal s' \<longrightarrow>
             publishes (new_events s ?r) = attempts (publish_calls l wd (clock (w (calls s))) label)))"
      unfolding pubs using q n by blast
    show ?thesis unfolding r using 1 2 3 4 Some True by simp
  qed
qed

text \<open>The fetch sends nothing and leaves \<open>weather_data_old\<close> alone; a whole pass.\<close>

lemma fetch_summary:
  "publishes (new_events s (fetch w s)) = [] \<and>
   weather_data_old (state_of (fetch w s)) = weather_data_old s \<and>
   weather_data (state_of (fetch w s)) = weather_data (deliver (delivered (w (calls s))) s) \<and>
   (\<forall>e s'. fetch w s \<noteq> Uncaught e s')"
proof (cases "raised (w (calls s))")
  case None
  then show ?thesis by (simp add: fetch_ok new_events_def deliver_simps)
next
  case e: (Some e)
  show ?thesis
  proof (cases "raised (w (Suc (calls s)))")
    case None
    with e show ?thesis by (simp add: fetch_recovered new_events_def deliver_simps)
  next
    case (Some e')
    with e show ?thesis by (simp add: fetch_fatal new_events_def deliver_simps)
  qed
qed

lemma sends_and_then:
  assumes "ends_well s q" and "\<And>s1. q = Normal s1 \<Longrightarrow> ends_well s1 (f s1)"
  shows "publishes (new_events s (and_then q f)) =
           publishes (new_events s q) @
           (case q of Normal s1 \<Rightarrow> publishes (new_events s1 (f s1)) | Reloaded s1 \<Rightarrow> [] | Uncaught e s1 \<Rightarrow> [])"
proof (cases q)
  case (Normal s1)
  have "new_events s (f s1) = new_events s (Normal s1) @ new_events s1 (f s1)"
    using ends_well_prefix[OF assms(1)] ends_well_prefix[OF assms(2)[OF Normal]] Normal
    by (intro new_events_split) simp_all
  with Normal show ?thesis by (simp add: and_then_def publishes_append)
next
  case (Reloaded s1)
  then show ?thesis by (simp add: and_then_def)
next
  case (Uncaught e s1)
  then show ?thesis by (simp add: and_then_def)
qed

lemma ends_well_repeat_weather: "ends_well s (repeat_weather l w s)"
  using repeat_weather_summary by blast

lemma ends_well_cycle: "ends_well s (cycle l w s)"
  unfolding cycle_def by (rule ends_well_and_then) (rule ends_well_fetch, rule ends_well_repeat_weather)

lemma cycle_sends:
  "publishes (new_events s (cycle l w s)) =
     (case fetch w s of Normal s1 \<Rightarrow> publishes (new_events s1 (repeat_weather l w s1))
      | Reloaded s1 \<Rightarrow> [] | Uncaught e s1 \<Rightarrow> [])"
proof -
  have "publishes (new_events s (cycle l w s)) =
          publishes (new_events s (fetch w s)) @
          (case fetch w s of Normal s1 \<Rightarrow> publishes (new_events s1 (repeat_weather l w s1))
           | Reloaded s1 \<Rightarrow> [] | Uncaught e s1 \<Rightarrow> [])"
    unfolding cycle_def by (rule sends_and_then) (rule ends_well_fetch, rule ends_well_repeat_weather)
  then show ?thesis using fetch_summary[of s w] by simp
qed

lemma cycle_Normal:
  assumes "cycle l w s = Normal s'"
  shows "\<exists>s1. fetch w s = Normal s1 \<and> repeat_weather l w s1 = Normal s'"
  using assms by (cases "fetch w s") (simp_all add: cycle_def and_then_def)

lemma ends_well_run: "ends_well s (run l w n s)"
proof (induction n arbitrary: s)
  case 0
  show ?case by (simp add: ends_well_refl)
next
  case (Suc n)
  show ?case unfolding run.simps
    by (rule ends_well_and_then) (rule ends_well_cycle, rule Suc.IH)
qed

lemma and_then_assoc: "and_then (and_then r f) g = and_then r (\<lambda>s. and_then (f s) g)"
  by (cases r) (simp_all add: and_then_def)

lemma run_add: "run l w (n + m) s = and_then (run l w n s) (run l w m)"
proof (induction n arbitrary: s)
  case 0
  show ?case by (simp add: and_then_def)
next
  case (Suc n)
  have "run l w (n + m) = (\<lambda>s. and_then (run l w n s) (run l w m))"
    by (rule ext) (rule Suc.IH)
  then show ?case by (simp add: and_then_assoc)
qed

lemma ends_well_connect_wifi: "ends_well s (connect_wifi l w s)"
  by (cases "raised (w (calls s))")
     (simp_all add: connect_wifi_def ends_well_def new_events_def emit_def ask_def
        restart_tail_def suffix_def)

text \<open>Reading \<open>ends_well\<close> for a restart.\<close>

lemma ends_well_Reloaded:
  assumes "ends_well s r" and "r = Reloaded s'"
  shows "\<exists>pre. trace s' = trace s @ pre @ [Print SoftResetNotice, Sleep 60, Reload] \<and> Reload \<notin> set pre"
proof -
  from assms have p: "prefix (trace s) (trace s')"
    and sf: "suffix restart_tail (new_events s r)" and c: "count_list (new_events s r) Reload = 1"
    by (simp_all add: ends_well_def)
  from sf obtain pre where pre: "new_events s r = pre @ restart_tail" by (auto simp: suffix_def)
  with c have "count_list pre Reload = 0" by (simp add: restart_tail_def)
  then have "Reload \<notin> set pre" by (simp add: count_list_0_iff)
  moreover have "trace s' = trace s @ new_events s r"
    using p assms(2) trace_ext[of s r] by simp
  ultimately show ?thesis using pre by (auto simp: restart_tail_def)
qed

text \<open>Once a value has been published the pass cannot end in an uncaught exception.\<close>

lemma new_observation_Uncaught:
  assumes "new_observation l w wd s = Uncaught e s'"
  shows "publishes (new_events s (new_observation l w wd s)) = []"
proof -
  from new_observation_shape[of l w wd s] show ?thesis
  proof (elim disjE exE conjE)
    fix e0 s0
    assume "new_observation l w wd s = Uncaught e0 s0"
      and "publishes (new_events s (Uncaught e0 s0)) = []"
    then show ?thesis by simp
  next
    fix label s6
    let ?q = "publish_seq w (publish_calls l wd (clock (w (calls s))) label) s6"
    assume r: "new_observation l w wd s =
        and_then ?q (\<lambda>s7. Normal (s7\<lparr>weather_data_old := weather_data s7\<rparr>))"
    have "\<forall>e s'. ?q \<noteq> Uncaught e s'"
      using publish_seq_keeps[of w "publish_calls l wd (clock (w (calls s))) label" s6] by simp
    then have False using assms unfolding r by (cases ?q) (simp_all add: and_then_def)
    then show ?thesis ..
  qed
qed

lemma repeat_weather_Uncaught:
  assumes "repeat_weather l w s = Uncaught e s'"
  shows "publishes (new_events s (repeat_weather l w s)) = []"
proof (cases "weather_data s")
  case None
  with assms show ?thesis by (simp add: repeat_weather_None)
next
  case (Some wd)
  show ?thesis
  proof (cases "differs (Some wd) (weather_data_old s)")
    case False
    with Some assms show ?thesis by (simp add: repeat_weather_same)
  next
    case True
    let ?q = "new_observation l w wd s"
    have r: "repeat_weather l w s = and_then ?q (\<lambda>s'. Normal (busy 120 s'))"
      using Some True by (rule repeat_weather_new)
    have eq: "ends_well s ?q" using new_observation_summary[of s l w wd] by blast
    have "?q = Uncaught e s'" using assms unfolding r by (cases ?q) (simp_all add: and_then_def)
    then have "publishes (new_events s ?q) = []" by (rule new_observation_Uncaught)
    then show ?thesis unfolding r using then_busy[OF eq, of 120] by simp
  qed
qed

lemma cycle_Uncaught:
  assumes "cycle l w s = Uncaught e s'"
  shows "publishes (new_events s (cycle l w s)) = []"
proof (cases "fetch w s")
  case (Normal s1)
  then have "repeat_weather l w s1 = Uncaught e s'"
    using assms by (simp add: cycle_def and_then_def)
  then have "publishes (new_events s1 (repeat_weather l w s1)) = []"
    by (rule repeat_weather_Uncaught)
  with Normal show ?thesis by (simp add: cycle_sends)
next
  case (Reloaded s1)
  then show ?thesis by (simp add: cycle_sends)
next
  case (Uncaught e1 s1)
  then show ?thesis by (simp add: cycle_sends)
qed

subsection \<open>The example inputs\<close>

lemma example_label: "wind_direction (map_option to_float (windDirection example_obs)) = Inr ''E''"
  by (simp add: example_obs_def wind_direction_def fadd_def fdiv_def py_mod_def py_int_def
        py_index_def compass_def fl_def ulp_def expo_def py_round_def eval_nat_numeral)

lemma skewed_label:
  "wind_direction (map_option to_float (windDirection skewed_obs)) = Inl (IndexError 8)"
  using wind_direction_raises by (simp add: skewed_obs_def)

lemma watchdog_ten: "py_round (fdiv 600 60) = 10"
  by (simp add: fdiv_def fl_def ulp_def expo_def py_round_def eval_nat_numeral)

lemma humidity_value: "fmul (1 / 2) (fl 100) = 50"
  by (simp add: fmul_def fl_def ulp_def expo_def py_round_def eval_nat_numeral)

lemma temperature_value: "fadd (fdiv (fmul (fl 20) 9) 5) 32 = 68"
  by (simp add: fadd_def fmul_def fdiv_def fl_def ulp_def expo_def py_round_def eval_nat_numeral)

lemma gusts_value: "fmul (fl 8) (fl (3107 / 5000)) = 1399268404224013 / 281474976710656"
  by (simp add: fmul_def fl_def ulp_def expo_def py_round_def eval_nat_numeral)

lemma speed_value: "fmul (fl 5) (fl (3107 / 5000)) = 6996342021120065 / 2251799813685248"
  by (simp add: fmul_def fl_def ulp_def expo_def py_round_def eval_nat_numeral)

lemma example_plan:
  "attempts (publish_calls example_lib example_obs 600 ''E'') =
     [(''system-watchdog'', IntV 10),
      (''weather-description'', StrV ''Clear''),
      (''weather-humidity'', FloatV 50),
      (''weather-temperature'', FloatV 68),
      (''weather-winddirection'', StrV ''E''),
      (''weather-windgusts'', FloatV (1399268404224013 / 281474976710656)),
      (''weather-windspeed'', FloatV (6996342021120065 / 2251799813685248)),
      (''weather-daylight'', StrV ''True'')]"
  by (simp add: publish_calls_def example_lib_def example_obs_def str_bool_def times_float_def
        watchdog_ten humidity_value temperature_value gusts_value speed_value)

lemma integer_humidity: "published (times_int (PyInt 1) 100) = IntV 100"
  by simp

lemma py_round_halves: "py_round (3 / 2) = 2 \<and> py_round (5 / 2) = 2 \<and> py_round (- (1 / 2)) = 0"
  by (simp add: py_round_def)

lemma flaky_fetch:
  "fetch world_flaky init_state =
     Normal \<lparr>weather_data = Some example_obs, weather_data_old = None,
             trace = [SetPixel 0xFFFF00, Sleep 2.5, AioLoop 10, SetPixel 0x00FF00], calls = 1\<rparr>"
  by (simp add: fetch_def ask_def emit_def world_flaky_def arrival_def init_state_def message_def)

lemma example_time: "minus_hours 63839707200000000 7 = Inr 63839682000000000"
  by (simp add: minus_hours_def)

lemma flaky_pass:
  "\<exists>s2. cycle example_lib world_flaky init_state = Normal s2 \<and>
     publishes (new_events init_state (Normal s2)) =
       attempts (publish_calls example_lib example_obs 600 ''E'') \<and>
     Print (PublishError ''timed out'') \<in> set (trace s2)"
  unfolding cycle_def flaky_fetch
  by (simp add: and_then_def repeat_weather_def new_observation_def example_label example_time
        icon_lookup_def icon_try_def table_get_def publish_to_aio_def ask_def emit_def
        busy_state new_events_def publishes_append publishes_blink publish_calls_def
        world_flaky_def quiet_def failing_def arrival_def example_lib_def str_bool_def
        init_state_def Let_def)

lemma early_time: "minus_hours 3600000000 7 = Inl OverflowError"
  by (simp add: minus_hours_def)

lemma str_bool_values: "str_bool True = ''True'' \<and> str_bool False = ''False''"
  by (simp add: str_bool_def)

lemma cut_pass:
  "publishes (new_events init_state (cycle example_lib world_cut init_state)) =
     [(''system-watchdog'', IntV 10), (''weather-description'', StrV ''Clear'')] \<and>
   (\<exists>s'. cycle example_lib world_cut init_state = Reloaded s')"
proof -
  have f: "fetch world_cut init_state =
     Normal \<lparr>weather_data = Some example_obs, weather_data_old = None,
             trace = [SetPixel 0xFFFF00, Sleep 2.5, AioLoop 10, SetPixel 0x00FF00], calls = 1\<rparr>"
    by (simp add: fetch_def ask_def emit_def world_cut_def arrival_def init_state_def message_def)
  have c: "conditionCode example_obs = ''Clear''" by (simp add: example_obs_def)
  show ?thesis
    unfolding cycle_def f
    by (simp add: and_then_def repeat_weather_def new_observation_def example_label example_time
          icon_lookup_def icon_try_def table_get_def publish_to_aio_def ask_def emit_def
          new_events_def publishes_append watchdog_ten c
          world_cut_def quiet_def failing_def arrival_def example_lib_def str_bool_def
          init_state_def Let_def)
qed

lemma skewed_pass:
  "cycle example_lib world_skewed init_state =
     Uncaught (IndexError 8)
       \<lparr>weather_data = Some skewed_obs, weather_data_old = None,
        trace = [SetPixel 0xFFFF00, Sleep 2.5, AioLoop 10, SetPixel 0x00FF00], calls = 1\<rparr>"
proof -
  have f: "fetch world_skewed init_state =
     Normal \<lparr>weather_data = Some skewed_obs, weather_data_old = None,
             trace = [SetPixel 0xFFFF00, Sleep 2.5, AioLoop 10, SetPixel 0x00FF00], calls = 1\<rparr>"
    by (simp add: fetch_def ask_def emit_def world_skewed_def init_state_def message_def)
  show ?thesis
    unfolding cycle_def f
    by (simp add: and_then_def repeat_weather_def new_observation_def skewed_label Let_def)
qed

text \<open>
  A payload that differs from the remembered one only under a key the loop does not read
  is a new observation: it is published.
\<close>

lemma other_key_is_a_change:
  "differs (Some extended_obs) (Some example_obs) \<and>
   publishes (new_events cached_state (cycle example_lib world_extended cached_state)) \<noteq> []"
proof -
  have n: "\<not> dict_eq extended_obs example_obs"
    by (simp add: dict_eq_def extended_obs_def example_obs_def)
  then have d: "differs (Some extended_obs) (Some example_obs)" by simp
  have f: "fetch world_extended cached_state =
     Normal \<lparr>weather_data = Some extended_obs, weather_data_old = Some example_obs,
             trace = [SetPixel 0xFFFF00, Sleep 2.5, AioLoop 10, SetPixel 0x00FF00], calls = 1\<rparr>"
    by (simp add: fetch_def ask_def emit_def world_extended_def cached_state_def message_def)
  have l: "wind_direction (map_option to_float (windDirection extended_obs)) = Inr ''E''"
    using example_label by (simp add: extended_obs_def)
  have "publishes (new_events cached_state (cycle example_lib world_extended cached_state)) \<noteq> []"
    unfolding cycle_def f
    by (simp add: and_then_def repeat_weather_def n new_observation_def l example_time
          icon_lookup_def icon_try_def table_get_def publish_to_aio_def ask_def emit_def
          busy_state new_events_def publishes_append publishes_blink
          world_extended_def quiet_def example_lib_def cached_state_def Let_def)
  with d show ?thesis by blast
qed

section \<open>The claims\<close>

text \<open>
  C1. In a pass of the loop in which \<open>aio.loop\<close> raises and the reconnect that follows
  succeeds, the fetch ends normally and the pass goes on to the processing step; no
  reload happens. The handler leaves \<open>weather_data\<close> as it was when \<open>aio.loop\<close>
  failed (as before the pass when no message was delivered), and \<open>weather_data_old\<close>
  as it was.
\<close>

theorem loop_failure_recovered:
  assumes "raised (w (calls s)) = Some e" and "raised (w (Suc (calls s))) = None"
  shows "\<exists>s1. fetch w s = Normal s1 \<and> cycle l w s = repeat_weather l w s1 \<and>
           new_events s (Normal s1) =
             [SetPixel 0xFFFF00, Sleep 2.5, AioLoop 10, SetPixel 0xFF0000, Print (LoopFailed e),
              Print LoopAttemptingReconnect, Sleep 10, AioConnect, SetPixel 0x00FF00] \<and>
           Reload \<notin> set (new_events s (Normal s1)) \<and>
           weather_data s1 = weather_data (deliver (delivered (w (calls s))) s) \<and>
           (delivered (w (calls s)) = [] \<longrightarrow> weather_data s1 = weather_data s) \<and>
           weather_data_old s1 = weather_data_old s"
proof -
  let ?s1 = "(deliver (delivered (w (calls s))) s)
               \<lparr>trace := trace s @ [SetPixel 0xFFFF00, Sleep 2.5, AioLoop 10, SetPixel 0xFF0000,
                                   Print (LoopFailed e), Print LoopAttemptingReconnect, Sleep 10,
                                   AioConnect, SetPixel 0x00FF00],
                calls := Suc (Suc (calls s))\<rparr>"
  have f: "fetch w s = Normal ?s1" using assms by (rule fetch_recovered)
  then have "cycle l w s = repeat_weather l w ?s1" by (simp add: cycle_def and_then_def)
  moreover have "new_events s (Normal ?s1) =
             [SetPixel 0xFFFF00, Sleep 2.5, AioLoop 10, SetPixel 0xFF0000, Print (LoopFailed e),
              Print LoopAttemptingReconnect, Sleep 10, AioConnect, SetPixel 0x00FF00]"
    by (simp add: new_events_def)
  moreover have "weather_data ?s1 = weather_data (deliver (delivered (w (calls s))) s)"
      "weather_data_old ?s1 = weather_data_old s"
    by (simp_all add: deliver_simps)
  ultimately show ?thesis using f by (intro exI[of _ ?s1]) simp
qed

theorem loop_failure_recovered_witness:
  "raised (world_recovers (calls cached_state)) = Some ''timed out'' \<and>
   raised (world_recovers (Suc (calls cached_state))) = None \<and>
   (\<exists>s1. fetch world_recovers cached_state = Normal s1 \<and>
      cycle example_lib world_recovers cached_state = repeat_weather example_lib world_recovers s1 \<and>
      new_events cached_state (Normal s1) =
        [SetPixel 0xFFFF00, Sleep 2.5, AioLoop 10, SetPixel 0xFF0000, Print (LoopFailed ''timed out''),
         Print LoopAttemptingReconnect, Sleep 10, AioConnect, SetPixel 0x00FF00] \<and>
      Reload \<notin> set (new_events cached_state (Normal s1)) \<and>
      weather_data s1 = Some example_obs \<and> weather_data_old s1 = Some example_obs)"
proof -
  have h1: "raised (world_recovers (calls cached_state)) = Some ''timed out''"
    by (simp add: world_recovers_def cached_state_def failing_def)
  have h2: "raised (world_recovers (Suc (calls cached_state))) = None"
    by (simp add: world_recovers_def quiet_def)
  have d: "delivered (world_recovers (calls cached_state)) = []"
    by (simp add: world_recovers_def cached_state_def failing_def)
  have c: "weather_data cached_state = Some example_obs"
      "weather_data_old cached_state = Some example_obs"
    by (simp_all add: cached_state_def)
  from loop_failure_recovered[OF h1 h2, of example_lib] h1 h2 show ?thesis
    unfolding d by (simp add: c)
qed

text \<open>
  C2. In a pass of the loop in which \<open>aio.loop\<close> raises and the reconnect that follows
  raises too, the script sleeps 60 seconds and reloads, exactly once, nothing is published
  in that pass, and no later pass runs.
\<close>

theorem loop_failure_fatal:
  assumes "raised (w (calls s)) = Some e" and "raised (w (Suc (calls s))) = Some e'"
  shows "\<exists>s'. cycle l w s = Reloaded s' \<and>
           new_events s (cycle l w s) =
             [SetPixel 0xFFFF00, Sleep 2.5, AioLoop 10, SetPixel 0xFF0000, Print (LoopFailed e),
              Print LoopAttemptingReconnect, Sleep 10, AioConnect, SetPixel 0xFF0000,
              Print (LoopReconnectFailed e'), Print SoftResetNotice, Sleep 60, Reload] \<and>
           count_list (new_events s (cycle l w s)) Reload = 1 \<and>
           publishes (new_events s (cycle l w s)) = [] \<and>
           (\<forall>n. run l w (Suc n) s = Reloaded s')"
proof -
  let ?s' = "(deliver (delivered (w (calls s))) s)
               \<lparr>trace := trace s @ [SetPixel 0xFFFF00, Sleep 2.5, AioLoop 10, SetPixel 0xFF0000,
                                   Print (LoopFailed e), Print LoopAttemptingReconnect, Sleep 10,
                                   AioConnect, SetPixel 0xFF0000, Print (LoopReconnectFailed e'),
                                   Print SoftResetNotice, Sleep 60, Reload],
                calls := Suc (Suc (calls s))\<rparr>"
  have "fetch w s = Reloaded ?s'" using assms by (rule fetch_fatal)
  then have c: "cycle l w s = Reloaded ?s'" by (simp add: cycle_def and_then_def)
  then have "\<forall>n. run l w (Suc n) s = Reloaded ?s'" by (simp add: and_then_def)
  moreover have "new_events s (Reloaded ?s') =
             [SetPixel 0xFFFF00, Sleep 2.5, AioLoop 10, SetPixel 0xFF0000, Print (LoopFailed e),
              Print LoopAttemptingReconnect, Sleep 10, AioConnect, SetPixel 0xFF0000,
              Print (LoopReconnectFailed e'), Print SoftResetNotice, Sleep 60, Reload]"
    by (simp add: new_events_def)
  ultimately show ?thesis unfolding c by (intro exI[of _ ?s']) simp
qed

theorem loop_failure_fatal_witness:
  "raised (world_down (calls cached_state)) = Some ''timed out'' \<and>
   raised (world_down (Suc (calls cached_state))) = Some ''timed out'' \<and>
   (\<exists>s'. cycle example_lib world_down cached_state = Reloaded s' \<and>
      new_events cached_state (cycle example_lib world_down cached_state) =
        [SetPixel 0xFFFF00, Sleep 2.5, AioLoop 10, SetPixel 0xFF0000, Print (LoopFailed ''timed out''),
         Print LoopAttemptingReconnect, Sleep 10, AioConnect, SetPixel 0xFF0000,
         Print (LoopReconnectFailed ''timed out''), Print SoftResetNotice, Sleep 60, Reload] \<and>
      count_list (new_events cached_state (cycle example_lib world_down cached_state)) Reload = 1 \<and>
      publishes (new_events cached_state (cycle example_lib world_down cached_state)) = [] \<and>
      (\<forall>n. run example_lib world_down (Suc n) cached_state = Reloaded s'))"
proof -
  have h1: "raised (world_down (calls cached_state)) = Some ''timed out''"
    by (simp add: world_down_def failing_def)
  have h2: "raised (world_down (Suc (calls cached_state))) = Some ''timed out''"
    by (simp add: world_down_def failing_def)
  from loop_failure_fatal[OF h1 h2, of example_lib] h1 h2 show ?thesis by blast
qed

text \<open>
  C3. In a pass of the loop in which, after the fetch, \<open>weather_data\<close> is set and equal
  (as Python compares dictionaries) to \<open>weather_data_old\<close>, nothing is published, and
  the pass ends with \<open>busy(120)\<close>: the pixel goes dark and, 120 times, the LED goes on
  for 0.05 seconds and off for 0.95 seconds.
\<close>

theorem unchanged_observation_not_published:
  assumes "fetch w s = Normal s1" and "weather_data s1 = Some wd"
    and "weather_data_old s1 = Some old" and "dict_eq wd old"
  shows "cycle l w s =
           Normal (s1\<lparr>trace := trace s1 @ SetPixel 0 #
                     concat (replicate 120 [SetLed True, Sleep (fl 0.05), SetLed False, Sleep (fl 0.95)])\<rparr>) \<and>
         publishes (new_events s (cycle l w s)) = [] \<and>
         new_events s (cycle l w s) =
           new_events s (Normal s1) @ SetPixel 0 #
             concat (replicate 120 [SetLed True, Sleep (fl 0.05), SetLed False, Sleep (fl 0.95)])"
proof -
  let ?wait = "SetPixel 0 # concat (replicate 120 [SetLed True, Sleep (fl 0.05), SetLed False, Sleep (fl 0.95)])"
  have "\<not> differs (Some wd) (weather_data_old s1)" using assms(3,4) by simp
  with assms(2) have r: "repeat_weather l w s1 = Normal (busy 120 s1)"
    by (rule repeat_weather_same)
  have "nat (py_round 120) = 120" by (simp add: py_round_def)
  then have b: "busy 120 s1 = s1\<lparr>trace := trace s1 @ ?wait\<rparr>"
    by (simp add: busy_state blink_replicate)
  have c: "cycle l w s = Normal (s1\<lparr>trace := trace s1 @ ?wait\<rparr>)"
    using assms(1) r b by (simp add: cycle_def and_then_def)
  have "publishes (new_events s (cycle l w s)) = publishes (new_events s1 (repeat_weather l w s1))"
    using assms(1) by (simp add: cycle_sends)
  then have p: "publishes (new_events s (cycle l w s)) = []"
    unfolding r by (simp add: busy_sends)
  have "prefix (trace s) (trace s1)"
    using ends_well_prefix[OF ends_well_fetch[of s w]] assms(1) by simp
  then obtain a where a: "trace s1 = trace s @ a" by (auto simp: prefix_def)
  have "new_events s (Normal (s1\<lparr>trace := trace s1 @ ?wait\<rparr>)) = new_events s (Normal s1) @ ?wait"
    by (simp add: new_events_def a)
  with c p show ?thesis by simp
qed

theorem unchanged_observation_not_published_witness:
  "fetch world_quiet recached_state =
     Normal (recached_state\<lparr>trace := [SetPixel 0xFFFF00, Sleep 2.5, AioLoop 10, SetPixel 0x00FF00],
                            calls := 1\<rparr>) \<and>
   dict_eq (example_obs\<lparr>temperature := PyFloat 20\<rparr>) example_obs \<and>
   publishes (new_events recached_state (cycle example_lib world_quiet recached_state)) = [] \<and>
   new_events recached_state (cycle example_lib world_quiet recached_state) =
     [SetPixel 0xFFFF00, Sleep 2.5, AioLoop 10, SetPixel 0x00FF00] @ SetPixel 0 #
       concat (replicate 120 [SetLed True, Sleep (fl 0.05), SetLed False, Sleep (fl 0.95)]) \<and>
   count_list (new_events recached_state (cycle example_lib world_quiet recached_state)) (SetLed True) = 120"
proof -
  let ?s1 = "recached_state\<lparr>trace := [SetPixel 0xFFFF00, Sleep 2.5, AioLoop 10, SetPixel 0x00FF00],
                            calls := 1\<rparr>"
  have "raised (world_quiet (calls recached_state)) = None"
    by (simp add: world_quiet_def quiet_def)
  then have h1: "fetch world_quiet recached_state = Normal ?s1"
    by (simp add: fetch_ok world_quiet_def quiet_def recached_state_def)
  have h2: "weather_data ?s1 = Some (example_obs\<lparr>temperature := PyFloat 20\<rparr>)"
    by (simp add: recached_state_def)
  have h3: "weather_data_old ?s1 = Some example_obs" by (simp add: recached_state_def)
  have h4: "dict_eq (example_obs\<lparr>temperature := PyFloat 20\<rparr>) example_obs"
    by (simp add: dict_eq_def num_eq_def example_obs_def)
  have n: "new_events recached_state (Normal ?s1) =
      [SetPixel 0xFFFF00, Sleep 2.5, AioLoop 10, SetPixel 0x00FF00]"
    by (simp add: new_events_def recached_state_def)
  note t = unchanged_observation_not_published[OF h1 h2 h3 h4, of example_lib]
  from t have "new_events recached_state (cycle example_lib world_quiet recached_state) =
     new_events recached_state (Normal ?s1) @ SetPixel 0 #
       concat (replicate 120 [SetLed True, Sleep (fl 0.05), SetLed False, Sleep (fl 0.95)])"
    by blast
  then have e: "new_events recached_state (cycle example_lib world_quiet recached_state) =
     [SetPixel 0xFFFF00, Sleep 2.5, AioLoop 10, SetPixel 0x00FF00] @ SetPixel 0 #
       concat (replicate 120 [SetLed True, Sleep (fl 0.05), SetLed False, Sleep (fl 0.95)])"
    unfolding n .
  have "count_list (new_events recached_state (cycle example_lib world_quiet recached_state)) (SetLed True) = 120"
    unfolding e by (simp add: count_list_ticks)
  with t e h1 h4 show ?thesis by blast
qed

text \<open>
  C4. When the calls before a value returned, the publish of the value raises and the
  reconnect succeeds, \<open>publish_to_aio\<close> returns and the sequence goes on with the next
  value: the values sent are those sent before, the failed value once, and what the rest
  of the sequence sends.
\<close>

theorem failed_publish_not_retried:
  assumes "publish_seq w pre s = Normal s1"
    and "raised (w (calls s1)) = Some e" and "raised (w (Suc (calls s1))) = None"
  shows "\<exists>s2. publish_to_aio w (Some v) feed s1 = Normal s2 \<and>
           publish_seq w (pre @ (Some v, feed) # rest) s = publish_seq w rest s2 \<and>
           new_events s1 (Normal s2) =
             [Sleep 2.5, AioPublish feed v, SetPixel 0xFF0000, Print (PublishFailed (Some v) feed),
              Print (PublishError e), Print AttemptingReconnect, AioReconnect, SetPixel 0x00FF00] \<and>
           publishes (new_events s (publish_seq w (pre @ (Some v, feed) # rest) s)) =
             attempts pre @ (feed, v) # publishes (new_events s2 (publish_seq w rest s2))"
proof -
  let ?s2 = "s1\<lparr>trace := trace s1 @ [Sleep 2.5, AioPublish feed v, SetPixel 0xFF0000,
                                       Print (PublishFailed (Some v) feed), Print (PublishError e),
                                       Print AttemptingReconnect, AioReconnect, SetPixel 0x00FF00],
                   calls := Suc (Suc (calls s1))\<rparr>"
  let ?all = "publish_seq w (pre @ (Some v, feed) # rest) s"
  have p: "publish_to_aio w (Some v) feed s1 = Normal ?s2"
    using assms(2,3) by (rule publish_to_aio_recovered)
  have all: "?all = publish_seq w rest ?s2"
    using assms(1) p by (simp add: publish_seq_append and_then_def)
  have ev: "new_events s1 (Normal ?s2) =
             [Sleep 2.5, AioPublish feed v, SetPixel 0xFF0000, Print (PublishFailed (Some v) feed),
              Print (PublishError e), Print AttemptingReconnect, AioReconnect, SetPixel 0x00FF00]"
    by (simp add: new_events_def)
  have e1: "ends_well s (Normal s1)" using ends_well_publish_seq[of s w pre] assms(1) by simp
  have e2: "ends_well s1 (Normal ?s2)" using ends_well_publish_to_aio[of s1 w "Some v" feed] p by simp
  have e3: "ends_well ?s2 (publish_seq w rest ?s2)" by (rule ends_well_publish_seq)
  have e12: "ends_well s (Normal ?s2)" using e1 e2 by (rule ends_well_step)
  have "new_events s (publish_seq w rest ?s2) =
          new_events s (Normal ?s2) @ new_events ?s2 (publish_seq w rest ?s2)"
    using ends_well_prefix[OF e12] ends_well_prefix[OF e3] by (intro new_events_split) simp_all
  moreover have "new_events s (Normal ?s2) = new_events s (Normal s1) @ new_events s1 (Normal ?s2)"
    using ends_well_prefix[OF e1] ends_well_prefix[OF e2] by (intro new_events_split) simp_all
  moreover have "publishes (new_events s (Normal s1)) = attempts pre"
    using publish_seq_sends[of s w pre] assms(1) by simp
  ultimately have "publishes (new_events s ?all) =
      attempts pre @ (feed, v) # publishes (new_events ?s2 (publish_seq w rest ?s2))"
    unfolding all ev by (simp add: publishes_append)
  with p all ev show ?thesis by (intro exI[of _ ?s2]) simp
qed

theorem failed_publish_not_retried_witness:
  "publish_seq world_second_fails [(Some (IntV 10), ''system-watchdog'')] init_state =
     Normal (init_state\<lparr>trace := [Sleep 2.5, AioPublish ''system-watchdog'' (IntV 10), SetPixel 0x00FF00,
                                   Print (PublishSuccess (IntV 10) ''system-watchdog'')],
                         calls := 1\<rparr>) \<and>
   raised (world_second_fails 1) = Some ''timed out'' \<and>
   raised (world_second_fails 2) = None \<and>
   publishes (new_events init_state
      (publish_seq world_second_fails
         ([(Some (IntV 10), ''system-watchdog'')] @ (Some (StrV ''Clear''), ''weather-description'') #
          [(Some (FloatV 50), ''weather-humidity'')]) init_state)) =
     [(''system-watchdog'', IntV 10), (''weather-description'', StrV ''Clear''),
      (''weather-humidity'', FloatV 50)]"
proof -
  let ?s1 = "init_state\<lparr>trace := [Sleep 2.5, AioPublish ''system-watchdog'' (IntV 10), SetPixel 0x00FF00,
                                   Print (PublishSuccess (IntV 10) ''system-watchdog'')],
                         calls := 1\<rparr>"
  have h1: "publish_seq world_second_fails [(Some (IntV 10), ''system-watchdog'')] init_state = Normal ?s1"
    by (simp add: publish_to_aio_def ask_def emit_def and_then_def world_second_fails_def quiet_def
          init_state_def)
  have c: "calls ?s1 = 1" by simp
  have h2: "raised (world_second_fails (calls ?s1)) = Some ''timed out''"
    unfolding c by (simp add: world_second_fails_def failing_def)
  have h3: "raised (world_second_fails (Suc (calls ?s1))) = None"
    unfolding c by (simp add: world_second_fails_def quiet_def)
  from failed_publish_not_retried[OF h1 h2 h3, of "StrV ''Clear''" "''weather-description''"
      "[(Some (FloatV 50), ''weather-humidity'')]"]
  obtain s2 where p: "publish_to_aio world_second_fails (Some (StrV ''Clear'')) ''weather-description'' ?s1 = Normal s2"
    and ev: "new_events ?s1 (Normal s2) =
             [Sleep 2.5, AioPublish ''weather-description'' (StrV ''Clear''), SetPixel 0xFF0000,
              Print (PublishFailed (Some (StrV ''Clear'')) ''weather-description''),
              Print (PublishError ''timed out''), Print AttemptingReconnect, AioReconnect, SetPixel 0x00FF00]"
    and pubs: "publishes (new_events init_state
      (publish_seq world_second_fails
         ([(Some (IntV 10), ''system-watchdog'')] @ (Some (StrV ''Clear''), ''weather-description'') #
          [(Some (FloatV 50), ''weather-humidity'')]) init_state)) =
       attempts [(Some (IntV 10), ''system-watchdog'')] @ (''weather-description'', StrV ''Clear'') #
         publishes (new_events s2 (publish_seq world_second_fails [(Some (FloatV 50), ''weather-humidity'')] s2))"
    by blast
  have "calls s2 = 3"
    using p by (simp add: publish_to_aio_def ask_def emit_def world_second_fails_def quiet_def
          failing_def init_state_def) auto
  then have "raised (world_second_fails (calls s2)) = None"
    by (simp add: world_second_fails_def quiet_def)
  then have "publish_to_aio world_second_fails (Some (FloatV 50)) ''weather-humidity'' s2 =
      Normal (s2\<lparr>trace := trace s2 @ [Sleep 2.5, AioPublish ''weather-humidity'' (FloatV 50), SetPixel 0x00FF00,
                                         Print (PublishSuccess (FloatV 50) ''weather-humidity'')],
                     calls := Suc (calls s2)\<rparr>)"
    by (rule publish_to_aio_ok)
  then have "publishes (new_events s2 (publish_seq world_second_fails [(Some (FloatV 50), ''weather-humidity'')] s2)) =
      [(''weather-humidity'', FloatV 50)]"
    by (simp add: and_then_def new_events_def)
  with pubs have P: "publishes (new_events init_state
      (publish_seq world_second_fails
         ([(Some (IntV 10), ''system-watchdog'')] @ (Some (StrV ''Clear''), ''weather-description'') #
          [(Some (FloatV 50), ''weather-humidity'')]) init_state)) =
     [(''system-watchdog'', IntV 10), (''weather-description'', StrV ''Clear''),
      (''weather-humidity'', FloatV 50)]"
    by simp
  have g2: "raised (world_second_fails 1) = Some ''timed out''"
    by (simp add: world_second_fails_def failing_def)
  have g3: "raised (world_second_fails 2) = None"
    by (simp add: world_second_fails_def quiet_def)
  from h1 g2 g3 P show ?thesis by blast
qed

text \<open>
  C5. For every call of \<open>publish_to_aio\<close> with the value \<open>None\<close>, the failure is
  logged, nothing is published (no call reaches the world) and the call returns normally:
  no exception, no reload.
\<close>

theorem publish_absent_value:
  "publish_to_aio w None feed s = Normal (s\<lparr>trace := trace s @ [Print (PublishFailed None feed)]\<rparr>)
   \<and> publishes (new_events s (publish_to_aio w None feed s)) = []"
  by (simp add: publish_to_aio_None new_events_def)

text \<open>
  C6, as amended. In every pass of the loop that publishes anything, what is published
  is an initial part of the fixed sequence, in this order and with nothing in between:
  the watchdog minutes, the condition code, the humidity in percent, the temperature in
  Fahrenheit, the compass label, the wind gusts and the wind speed in miles per hour and
  the daylight flag as a string. It is all eight when the pass ends normally; it is fewer
  only when the pass is cut short by the reload after a failed reconnect.
\<close>

theorem publish_order:
  assumes "publishes (new_events s (cycle l w s)) \<noteq> []"
  shows "\<exists>s1 wd label plan. fetch w s = Normal s1 \<and> weather_data s1 = Some wd \<and>
           wind_direction (map_option to_float (windDirection wd)) = Inr label \<and>
           plan = [(''system-watchdog'', IntV (py_round (fdiv (clock (w (calls s1))) 60))),
                   (''weather-description'', StrV (conditionCode wd)),
                   (''weather-humidity'', published (times_int (humidity wd) 100)),
                   (''weather-temperature'', published (celsius_to_fahrenheit l (temperature wd))),
                   (''weather-winddirection'', StrV label),
                   (''weather-windgusts'', FloatV (times_float (windGust wd) (fl 0.6214))),
                   (''weather-windspeed'', FloatV (times_float (windSpeed wd) (fl 0.6214))),
                   (''weather-daylight'', StrV (str_bool (daylight wd)))] \<and>
           prefix (publishes (new_events s (cycle l w s))) plan \<and>
           (\<forall>s'. cycle l w s = Normal s' \<longrightarrow> publishes (new_events s (cycle l w s)) = plan) \<and>
           (publishes (new_events s (cycle l w s)) = plan \<or> (\<exists>s'. cycle l w s = Reloaded s'))"
proof (cases "fetch w s")
  case (Normal s1)
  let ?r = "repeat_weather l w s1"
  have c: "cycle l w s = ?r" using Normal by (simp add: cycle_def and_then_def)
  have p: "publishes (new_events s (cycle l w s)) = publishes (new_events s1 ?r)"
    using Normal by (simp add: cycle_sends)
  with assms have "publishes (new_events s1 ?r) \<noteq> []" by simp
  with repeat_weather_summary[of s1 l w] obtain wd label where
    wd: "weather_data s1 = Some wd"
    and lab: "wind_direction (map_option to_float (windDirection wd)) = Inr label"
    and pre: "prefix (publishes (new_events s1 ?r))
                (attempts (publish_calls l wd (clock (w (calls s1))) label))"
    and full: "\<forall>s'. ?r = Normal s' \<longrightarrow>
          publishes (new_events s1 ?r) = attempts (publish_calls l wd (clock (w (calls s1))) label)"
    by blast
  let ?plan = "attempts (publish_calls l wd (clock (w (calls s1))) label)"
  have plan: "?plan = [(''system-watchdog'', IntV (py_round (fdiv (clock (w (calls s1))) 60))),
                   (''weather-description'', StrV (conditionCode wd)),
                   (''weather-humidity'', published (times_int (humidity wd) 100)),
                   (''weather-temperature'', published (celsius_to_fahrenheit l (temperature wd))),
                   (''weather-winddirection'', StrV label),
                   (''weather-windgusts'', FloatV (times_float (windGust wd) (fl 0.6214))),
                   (''weather-windspeed'', FloatV (times_float (windSpeed wd) (fl 0.6214))),
                   (''weather-daylight'', StrV (str_bool (daylight wd)))]"
    by (simp add: publish_calls_def)
  have 1: "prefix (publishes (new_events s (cycle l w s))) ?plan" unfolding p by (rule pre)
  have 2: "\<forall>s'. cycle l w s = Normal s' \<longrightarrow> publishes (new_events s (cycle l w s)) = ?plan"
    unfolding p using full c by simp
  have 3: "publishes (new_events s (cycle l w s)) = ?plan \<or> (\<exists>s'. cycle l w s = Reloaded s')"
  proof (cases "cycle l w s")
    case (Normal s')
    with 2 show ?thesis by simp
  next
    case (Reloaded s')
    then show ?thesis by simp
  next
    case (Uncaught e s')
    then have "publishes (new_events s (cycle l w s)) = []" by (rule cycle_Uncaught)
    with assms show ?thesis by simp
  qed
  show ?thesis
    using Normal wd lab plan 1 2 3
    by (intro exI[of _ s1] exI[of _ wd] exI[of _ label] exI[of _ ?plan]) simp
next
  case (Reloaded s1)
  with assms show ?thesis by (simp add: cycle_sends)
next
  case (Uncaught e s1)
  with assms show ?thesis by (simp add: cycle_sends)
qed

theorem publish_order_witness:
  "publishes (new_events init_state (cycle example_lib world_flaky init_state)) \<noteq> [] \<and>
   publishes (new_events init_state (cycle example_lib world_flaky init_state)) =
     [(''system-watchdog'', IntV 10),
      (''weather-description'', StrV ''Clear''),
      (''weather-humidity'', FloatV 50),
      (''weather-temperature'', FloatV 68),
      (''weather-winddirection'', StrV ''E''),
      (''weather-windgusts'', FloatV (1399268404224013 / 281474976710656)),
      (''weather-windspeed'', FloatV (6996342021120065 / 2251799813685248)),
      (''weather-daylight'', StrV ''True'')]"
proof -
  from flaky_pass obtain s2 where n: "cycle example_lib world_flaky init_state = Normal s2"
    and q: "publishes (new_events init_state (Normal s2)) =
              attempts (publish_calls example_lib example_obs 600 ''E'')"
    by blast
  have h: "publishes (new_events init_state (cycle example_lib world_flaky init_state)) \<noteq> []"
    unfolding n q example_plan by simp
  from publish_order[OF h] obtain s1 wd label plan where
    f: "fetch world_flaky init_state = Normal s1" and wd: "weather_data s1 = Some wd"
    and lab: "wind_direction (map_option to_float (windDirection wd)) = Inr label"
    and plan: "plan = [(''system-watchdog'', IntV (py_round (fdiv (clock (world_flaky (calls s1))) 60))),
                   (''weather-description'', StrV (conditionCode wd)),
                   (''weather-humidity'', published (times_int (humidity wd) 100)),
                   (''weather-temperature'', published (celsius_to_fahrenheit example_lib (temperature wd))),
                   (''weather-winddirection'', StrV label),
                   (''weather-windgusts'', FloatV (times_float (windGust wd) (fl 0.6214))),
                   (''weather-windspeed'', FloatV (times_float (windSpeed wd) (fl 0.6214))),
                   (''weather-daylight'', StrV (str_bool (daylight wd)))]"
    and full: "\<forall>s'. cycle example_lib world_flaky init_state = Normal s' \<longrightarrow>
         publishes (new_events init_state (cycle example_lib world_flaky init_state)) = plan"
    by blast
  from f have s1: "s1 = \<lparr>weather_data = Some example_obs, weather_data_old = None,
             trace = [SetPixel 0xFFFF00, Sleep 2.5, AioLoop 10, SetPixel 0x00FF00], calls = 1\<rparr>"
    unfolding flaky_fetch by simp
  from wd have wd': "wd = example_obs" unfolding s1 by simp
  from lab have label: "label = ''E''" unfolding wd' example_label by simp
  have ck: "clock (world_flaky (calls s1)) = 600"
    unfolding s1 by (simp add: world_flaky_def quiet_def)
  have "plan = attempts (publish_calls example_lib example_obs 600 ''E'')"
    unfolding plan ck wd' label by (simp add: publish_calls_def)
  then have "plan = [(''system-watchdog'', IntV 10),
      (''weather-description'', StrV ''Clear''),
      (''weather-humidity'', FloatV 50),
      (''weather-temperature'', FloatV 68),
      (''weather-winddirection'', StrV ''E''),
      (''weather-windgusts'', FloatV (1399268404224013 / 281474976710656)),
      (''weather-windspeed'', FloatV (6996342021120065 / 2251799813685248)),
      (''weather-daylight'', StrV ''True'')]"
    unfolding example_plan .
  moreover from full n have "publishes (new_events init_state (cycle example_lib world_flaky init_state)) = plan"
    by blast
  ultimately show ?thesis using h by simp
qed

text \<open>
  C6 as stated fails: when the watchdog minutes are published, the publish of the
  description fails and the reconnect after it fails too, the script reloads and the pass
  has made two of the eight publish calls.
\<close>

theorem publish_order_counterexample:
  "publishes (new_events init_state (cycle example_lib world_cut init_state)) =
     [(''system-watchdog'', IntV 10), (''weather-description'', StrV ''Clear'')]"
  using cut_pass by blast

text \<open>What stays as it is once the current observation has been remembered.\<close>

lemma deliver_same:
  assumes "weather_data s = Some a" and "dict_eq a wd"
    and "\<forall>m\<in>set ms. fst m = ''weather'' \<longrightarrow> dict_eq (snd m) wd"
  shows "\<exists>b. weather_data (deliver ms s) = Some b \<and> dict_eq b wd"
  using assms
proof (induction ms arbitrary: s a)
  case Nil
  then show ?case by simp
next
  case (Cons m ms)
  obtain feed_id payload where m: "m = (feed_id, payload)" by (cases m)
  have "\<exists>b. weather_data (message feed_id payload s) = Some b \<and> dict_eq b wd"
    using Cons.prems m by (cases "feed_id = ''weather''") (simp_all add: message_def)
  then obtain b where "weather_data (message feed_id payload s) = Some b" and "dict_eq b wd"
    by blast
  moreover have "\<forall>x\<in>set ms. fst x = ''weather'' \<longrightarrow> dict_eq (snd x) wd"
    using Cons.prems(3) by simp
  ultimately have "\<exists>b. weather_data (deliver ms (message feed_id payload s)) = Some b \<and> dict_eq b wd"
    by (rule Cons.IH)
  then show ?case by (simp add: m)
qed

lemma settled_cycle:
  assumes "weather_data s = Some a" and "dict_eq a wd" and "weather_data_old s = Some wd"
    and "\<forall>k\<ge>c. \<forall>m\<in>set (delivered (w k)). fst m = ''weather'' \<longrightarrow> dict_eq (snd m) wd"
    and "c \<le> calls s"
  shows "publishes (new_events s (cycle l w s)) = [] \<and>
         (\<forall>s'. cycle l w s = Normal s' \<longrightarrow>
            (\<exists>b. weather_data s' = Some b \<and> dict_eq b wd) \<and>
            weather_data_old s' = Some wd \<and> c \<le> calls s')"
proof (cases "fetch w s")
  case (Normal s1)
  have "\<forall>m\<in>set (delivered (w (calls s))). fst m = ''weather'' \<longrightarrow> dict_eq (snd m) wd"
    using assms(4,5) by simp
  with assms(1,2) have "\<exists>b. weather_data (deliver (delivered (w (calls s))) s) = Some b \<and> dict_eq b wd"
    by (rule deliver_same)
  with fetch_summary[of s w] Normal assms(3)
  obtain b where w1: "weather_data s1 = Some b" and b: "dict_eq b wd"
    and o1: "weather_data_old s1 = Some wd" by auto
  have "\<not> differs (Some b) (weather_data_old s1)" using o1 b by simp
  with w1 have r: "repeat_weather l w s1 = Normal (busy 120 s1)" by (rule repeat_weather_same)
  have c: "cycle l w s = Normal (busy 120 s1)" using Normal r by (simp add: cycle_def and_then_def)
  have "calls s \<le> calls s1" using ends_well_calls[OF ends_well_fetch[of s w]] Normal by simp
  with assms(5) have "c \<le> calls (busy 120 s1)" by (simp add: busy_fields)
  moreover have "publishes (new_events s (cycle l w s)) = []"
    using Normal r by (simp add: cycle_sends busy_sends)
  ultimately show ?thesis using c w1 b o1 by (simp add: busy_fields)
next
  case (Reloaded s1)
  then have "publishes (new_events s (cycle l w s)) = []" by (simp add: cycle_sends)
  moreover have "cycle l w s = Reloaded s1" using Reloaded by (simp add: cycle_def and_then_def)
  ultimately show ?thesis by simp
next
  case (Uncaught e s1)
  then have "publishes (new_events s (cycle l w s)) = []" by (simp add: cycle_sends)
  moreover have "cycle l w s = Uncaught e s1" using Uncaught by (simp add: cycle_def and_then_def)
  ultimately show ?thesis by simp
qed

lemma settled_run:
  assumes "weather_data s = Some a" and "dict_eq a wd" and "weather_data_old s = Some wd"
    and "\<forall>k\<ge>c. \<forall>m\<in>set (delivered (w k)). fst m = ''weather'' \<longrightarrow> dict_eq (snd m) wd"
    and "c \<le> calls s"
  shows "publishes (new_events s (run l w n s)) = []"
  using assms(1,2,3,5)
proof (induction n arbitrary: s a)
  case 0
  show ?case by (simp add: new_events_def)
next
  case (Suc n)
  note sc = settled_cycle[OF Suc.prems(1,2,3) assms(4) Suc.prems(4), of l]
  have "publishes (new_events s (run l w (Suc n) s)) =
          publishes (new_events s (cycle l w s)) @
          (case cycle l w s of Normal s1 \<Rightarrow> publishes (new_events s1 (run l w n s1))
           | Reloaded s1 \<Rightarrow> [] | Uncaught e s1 \<Rightarrow> [])"
    unfolding run.simps by (rule sends_and_then) (rule ends_well_cycle, rule ends_well_run)
  also have "\<dots> = []"
  proof (cases "cycle l w s")
    case (Normal s1)
    with sc obtain b where "weather_data s1 = Some b" "dict_eq b wd"
      "weather_data_old s1 = Some wd" "c \<le> calls s1"
      by auto
    then have "publishes (new_events s1 (run l w n s1)) = []" by (rule Suc.IH)
    with sc Normal show ?thesis by simp
  next
    case (Reloaded s1)
    with sc show ?thesis by simp
  next
    case (Uncaught e s1)
    with sc show ?thesis by simp
  qed
  finally show ?case .
qed

text \<open>
  C7, as amended. For every condition code that is not in the table and every daylight
  flag, the lookup of lines 192 to 201 gives the description
  \<open>unknown description: <code>\<close> and the icon \<open>99d\<close>, whatever the daylight flag,
  logs the miss and raises nothing.
\<close>

theorem unknown_code_icon:
  assumes "tbl code = None"
  shows "icon_lookup tbl code is_day s =
           Inr ((''99d'', ''unknown description: '' @ code), emit [Print (NoDescription code)] s)"
  using assms by (simp add: icon_lookup_def icon_try_def table_get_def)

theorem unknown_code_icon_witness:
  "kit_to_map_icon example_lib ''Tornado'' = None \<and>
   icon_lookup (kit_to_map_icon example_lib) ''Tornado'' True init_state =
     Inr ((''99d'', ''unknown description: Tornado''), emit [Print (NoDescription ''Tornado'')] init_state)"
proof -
  have h: "kit_to_map_icon example_lib ''Tornado'' = None" by (simp add: example_lib_def)
  from unknown_code_icon[of "kit_to_map_icon example_lib" "''Tornado''" True init_state, OF h] h
  show ?thesis by simp
qed

text \<open>
  C7 as stated fails when it is not daylight: the icon of an unknown code is \<open>99d\<close>
  then too, not \<open>99n\<close>.
\<close>

theorem unknown_code_icon_counterexample:
  "map_sum id fst (icon_lookup (kit_to_map_icon example_lib) ''Tornado'' False init_state) =
     Inr (''99d'', ''unknown description: Tornado'') \<and>
   map_sum id fst (icon_lookup (kit_to_map_icon example_lib) ''Tornado'' False init_state) \<noteq>
     Inr (''99n'', ''unknown description: Tornado'')"
  by (simp add: icon_lookup_def icon_try_def table_get_def example_lib_def)

text \<open>
  C8, as amended. Wherever the script gives up (the Wi-Fi connection, the reconnect after
  a failed \<open>aio.loop\<close>, the reconnect after a failed publish, and so in any pass of the
  loop), it prints the notice, sleeps 60 seconds in one plain \<open>time.sleep(60)\<close> with no
  blinking, and reloads; the reload is the last event, there is no other, and nothing
  runs after it.
\<close>

theorem fatal_restart_plain_sleep:
  assumes "connect_wifi l w s = Reloaded s' \<or> publish_to_aio w val feed s = Reloaded s' \<or>
           fetch w s = Reloaded s' \<or> cycle l w s = Reloaded s' \<or> run l w n s = Reloaded s'"
  shows "(\<exists>pre. trace s' = trace s @ pre @ [Print SoftResetNotice, Sleep 60, Reload] \<and>
            Reload \<notin> set pre) \<and>
         (\<forall>f. and_then (Reloaded s') f = Reloaded s') \<and>
         (run l w n s = Reloaded s' \<longrightarrow> (\<forall>m. run l w (n + m) s = Reloaded s'))"
proof -
  from assms obtain r where "ends_well s r" "r = Reloaded s'"
    using ends_well_connect_wifi[of s l w] ends_well_publish_to_aio[of s w val feed]
      ends_well_fetch[of s w] ends_well_cycle[of s l w] ends_well_run[of s l w n]
    by metis
  then have "\<exists>pre. trace s' = trace s @ pre @ [Print SoftResetNotice, Sleep 60, Reload] \<and>
            Reload \<notin> set pre"
    by (rule ends_well_Reloaded)
  moreover have "\<forall>f. and_then (Reloaded s') f = Reloaded s'" by (simp add: and_then_def)
  moreover have "run l w n s = Reloaded s' \<longrightarrow> (\<forall>m. run l w (n + m) s = Reloaded s')"
    by (simp add: run_add and_then_def)
  ultimately show ?thesis by blast
qed

theorem fatal_restart_plain_sleep_witness:
  "fetch world_down init_state =
     Reloaded (init_state\<lparr>trace := [SetPixel 0xFFFF00, Sleep 2.5, AioLoop 10, SetPixel 0xFF0000,
                  Print (LoopFailed ''timed out''), Print LoopAttemptingReconnect, Sleep 10, AioConnect,
                  SetPixel 0xFF0000, Print (LoopReconnectFailed ''timed out''),
                  Print SoftResetNotice, Sleep 60, Reload], calls := 2\<rparr>) \<and>
   (\<forall>m. run example_lib world_down (1 + m) init_state = run example_lib world_down 1 init_state)"
proof -
  let ?s' = "init_state\<lparr>trace := [SetPixel 0xFFFF00, Sleep 2.5, AioLoop 10, SetPixel 0xFF0000,
                  Print (LoopFailed ''timed out''), Print LoopAttemptingReconnect, Sleep 10, AioConnect,
                  SetPixel 0xFF0000, Print (LoopReconnectFailed ''timed out''),
                  Print SoftResetNotice, Sleep 60, Reload], calls := 2\<rparr>"
  have f: "fetch world_down init_state = Reloaded ?s'"
    by (simp add: fetch_def ask_def emit_def world_down_def failing_def init_state_def)
  then have r: "run example_lib world_down 1 init_state = Reloaded ?s'"
    by (simp add: cycle_def and_then_def)
  have h: "connect_wifi example_lib world_down init_state = Reloaded ?s' \<or>
      publish_to_aio world_down None [] init_state = Reloaded ?s' \<or>
      fetch world_down init_state = Reloaded ?s' \<or>
      cycle example_lib world_down init_state = Reloaded ?s' \<or>
      run example_lib world_down 1 init_state = Reloaded ?s'"
    using f by simp
  from fatal_restart_plain_sleep[OF h] r f show ?thesis by simp
qed

text \<open>
  C8 as stated fails: the wait before the reload is not the blinking \<open>busy\<close>. When
  \<open>aio.loop\<close> and the reconnect fail, the events of the pass do not end with the 60
  blinks of \<open>busy(60)\<close> and the reload.
\<close>

theorem fatal_restart_blink_counterexample:
  "new_events init_state (cycle example_lib world_down init_state) =
     [SetPixel 0xFFFF00, Sleep 2.5, AioLoop 10, SetPixel 0xFF0000,
      Print (LoopFailed ''timed out''), Print LoopAttemptingReconnect, Sleep 10, AioConnect,
      SetPixel 0xFF0000, Print (LoopReconnectFailed ''timed out''),
      Print SoftResetNotice, Sleep 60, Reload] \<and>
   \<not> suffix (blink 60 @ [Reload]) (new_events init_state (cycle example_lib world_down init_state))"
proof -
  have e: "new_events init_state (cycle example_lib world_down init_state) =
     [SetPixel 0xFFFF00, Sleep 2.5, AioLoop 10, SetPixel 0xFF0000,
      Print (LoopFailed ''timed out''), Print LoopAttemptingReconnect, Sleep 10, AioConnect,
      SetPixel 0xFF0000, Print (LoopReconnectFailed ''timed out''),
      Print SoftResetNotice, Sleep 60, Reload]"
    by (simp add: cycle_def and_then_def fetch_def ask_def emit_def world_down_def failing_def
          init_state_def new_events_def)
  have "\<not> suffix (blink 60 @ [Reload]) (new_events init_state (cycle example_lib world_down init_state))"
  proof
    assume "suffix (blink 60 @ [Reload]) (new_events init_state (cycle example_lib world_down init_state))"
    then have "length (blink 60 @ [Reload]) \<le>
        length (new_events init_state (cycle example_lib world_down init_state))"
      by (rule suffix_length_le)
    then show False unfolding e by (simp add: length_blink)
  qed
  with e show ?thesis by simp
qed

text \<open>
  C9, as amended. For every heading that is a whole number of degrees \<open>k\<close> with
  \<open>\<bar>k\<bar> < 2 ^ 49\<close>, the compass label of \<open>k + 360\<close> (a float addition) is the
  compass label of \<open>k\<close>.
\<close>

theorem compass_label_shift:
  assumes "\<bar>k\<bar> < 2 ^ 49"
  shows "wind_direction (Some (fadd (of_int k) 360)) = wind_direction (Some (of_int k))"
proof -
  have k: "\<bar>k\<bar> < 2 ^ 50" "\<bar>k + 360\<bar> < 2 ^ 50" "\<bar>k + 360\<bar> < 2 ^ 53" using assms by simp_all
  have a: "fadd (of_int k) 360 = of_int (k + 360)"
    unfolding fadd_def using fl_int[OF k(3)] by simp
  have "2 * (k + 360) + 45 = (2 * k + 45) + 720" by simp
  then have m: "(2 * (k + 360) + 45) mod 720 = (2 * k + 45) mod 720"
    by (simp only: mod_add_self2)
  have "py_mod (fadd (of_int (k + 360)) 22.5) 360 = py_mod (fadd (of_int k) 22.5) 360"
    unfolding whole_degrees[OF k(1)] whole_degrees[OF k(2)] m ..
  then show ?thesis
    unfolding wind_direction_def a by (simp only: option.case)
qed

theorem compass_label_shift_witness:
  "\<bar>90::int\<bar> < 2 ^ 49 \<and> wind_direction (Some (fadd (of_int 90) 360)) = Inr ''E''
     \<and> wind_direction (Some (of_int 90)) = Inr ''E''"
proof -
  have h: "\<bar>90::int\<bar> < 2 ^ 49" by simp
  have e: "wind_direction (Some (of_int 90)) = Inr ''E''"
    by (simp add: wind_direction_def fadd_def fdiv_def py_mod_def py_int_def py_index_def compass_def
          fl_def ulp_def expo_def py_round_def eval_nat_numeral)
  from h e compass_label_shift[OF h] show ?thesis by (simp only: simp_thms)
qed

text \<open>
  C9 as stated fails on floats: the heading \<open>22.5 - 2 ^ -47\<close> (the float
  \<open>22.499999999999993\<close>) has the label \<open>N\<close>, and the heading plus 360, which rounds
  to \<open>382.5\<close>, has the label \<open>NE\<close>.
\<close>

theorem compass_label_shift_counterexample:
  "fl (45 / 2 - 1 / 2 ^ 47) = 45 / 2 - 1 / 2 ^ 47
   \<and> wind_direction (Some (45 / 2 - 1 / 2 ^ 47)) = Inr ''N''
   \<and> wind_direction (Some (fadd (45 / 2 - 1 / 2 ^ 47) 360)) = Inr ''NE''"
  by (simp add: wind_direction_def fadd_def fdiv_def py_mod_def py_int_def py_index_def compass_def
        fl_def ulp_def expo_def py_round_def eval_nat_numeral)

text \<open>
  C10, as amended. When a pass of the loop that found a new observation runs to its end
  (it ends neither in the reload nor in an uncaught exception), whatever happened to the
  eight publishes, \<open>weather_data_old\<close> is the current observation; and as long as no
  observation that differs from it is delivered, no later pass publishes anything.
\<close>

theorem previous_overwritten:
  assumes "fetch w s = Normal s1" and "weather_data s1 = Some wd"
    and "differs (Some wd) (weather_data_old s1)" and "cycle l w s = Normal s2"
  shows "weather_data_old s2 = Some wd \<and> weather_data s2 = Some wd \<and>
         (\<forall>n. (\<forall>k\<ge>calls s2. \<forall>m\<in>set (delivered (w k)).
                  fst m = ''weather'' \<longrightarrow> dict_eq (snd m) wd) \<longrightarrow>
              publishes (new_events s2 (run l w n s2)) = [])"
proof -
  have r: "repeat_weather l w s1 = Normal s2"
    using assms(1,4) by (simp add: cycle_def and_then_def)
  with repeat_weather_summary[of s1 l w] assms(2,3)
  have o: "weather_data_old s2 = Some wd" and d: "weather_data s2 = Some wd" by auto
  have "\<forall>n. (\<forall>k\<ge>calls s2. \<forall>m\<in>set (delivered (w k)).
                  fst m = ''weather'' \<longrightarrow> dict_eq (snd m) wd) \<longrightarrow>
              publishes (new_events s2 (run l w n s2)) = []"
    using settled_run[OF d dict_eq_refl o, of "calls s2" w l] by blast
  with o d show ?thesis by blast
qed

theorem previous_overwritten_witness:
  "\<exists>s1 s2. fetch world_flaky init_state = Normal s1 \<and> weather_data s1 = Some example_obs \<and>
      differs (Some example_obs) (weather_data_old s1) \<and>
      cycle example_lib world_flaky init_state = Normal s2 \<and>
      Print (PublishError ''timed out'') \<in> set (trace s2) \<and>
      weather_data_old s2 = Some example_obs \<and> weather_data s2 = Some example_obs \<and>
      publishes (new_events s2 (run example_lib world_flaky 3 s2)) = []"
proof -
  let ?s1 = "\<lparr>weather_data = Some example_obs, weather_data_old = None,
             trace = [SetPixel 0xFFFF00, Sleep 2.5, AioLoop 10, SetPixel 0x00FF00], calls = 1\<rparr>"
  have h1: "fetch world_flaky init_state = Normal ?s1" by (rule flaky_fetch)
  have h2: "weather_data ?s1 = Some example_obs" by simp
  have h3: "differs (Some example_obs) (weather_data_old ?s1)" by simp
  from flaky_pass obtain s2 where h4: "cycle example_lib world_flaky init_state = Normal s2"
    and f: "Print (PublishError ''timed out'') \<in> set (trace s2)"
    by blast
  have same: "\<forall>k\<ge>calls s2. \<forall>m\<in>set (delivered (world_flaky k)).
      fst m = ''weather'' \<longrightarrow> dict_eq (snd m) example_obs"
    by (simp add: world_flaky_def arrival_def quiet_def failing_def dict_eq_refl)
  from previous_overwritten[OF h1 h2 h3 h4] same
  have "weather_data_old s2 = Some example_obs" "weather_data s2 = Some example_obs"
    "publishes (new_events s2 (run example_lib world_flaky 3 s2)) = []"
    by blast+
  with h1 h2 h3 h4 f show ?thesis by blast
qed

text \<open>
  C10 as stated fails: a pass that finds a new observation can end in an uncaught
  exception, without a reload and without remembering the observation. With the heading
  \<open>-22.500000000000004\<close> the index into the compass list is 8, \<open>wind_direction\<close>
  raises \<open>IndexError\<close>, and \<open>weather_data_old\<close> is still \<open>None\<close>.
\<close>

theorem previous_overwritten_counterexample:
  "cycle example_lib world_skewed init_state =
     Uncaught (IndexError 8)
       \<lparr>weather_data = Some skewed_obs, weather_data_old = None,
        trace = [SetPixel 0xFFFF00, Sleep 2.5, AioLoop 10, SetPixel 0x00FF00], calls = 1\<rparr>"
  by (rule skewed_pass)

end
